theory Spec2Isabelle
  imports Main
begin

section \<open>Python values used by the bridge\<close>

text \<open>
  The two programs are \<^verbatim>\<open>tcp.py\<close> (the telemetry bridge: configuration loading, the
  polling loop, publishing) and \<^verbatim>\<open>ip.py\<close> (the stand-alone poller with a fixed device
  list). A Python \<^verbatim>\<open>str\<close> is a \<open>string\<close> whose characters are read as the code points
  0 to 255; Python integers are \<open>int\<close>. An exception that a call raises is a value of
  \<open>exn\<close>, carrying the text that \<^verbatim>\<open>str(e)\<close> gives.
\<close>

datatype exn =
    FileNotFoundError string
  | KeyError string
  | ValueError string
  | TypeError string
  | ModbusException string
  | OtherException string
  | KeyboardInterrupt

text \<open>
  \<^verbatim>\<open>except Exception\<close> catches every class above but \<^verbatim>\<open>KeyboardInterrupt\<close>, which derives
  from \<^verbatim>\<open>BaseException\<close> only.
\<close>

fun is_Exception :: "exn \<Rightarrow> bool" where
  "is_Exception KeyboardInterrupt = False"
| "is_Exception _ = True"

fun str_exn :: "exn \<Rightarrow> string" where
  "str_exn (FileNotFoundError m) = m"
| "str_exn (KeyError m) = m"
| "str_exn (ValueError m) = m"
| "str_exn (TypeError m) = m"
| "str_exn (ModbusException m) = m"
| "str_exn (OtherException m) = m"
| "str_exn KeyboardInterrupt = []"

subsection \<open>String methods\<close>

text \<open>
  \<^verbatim>\<open>str.isspace\<close> on the code points below 256: the ASCII controls 9 to 13 and 28 to 31,
  the space, and U+0085 and U+00A0.
\<close>

definition isspace :: "char \<Rightarrow> bool" where
  "isspace c = (let n = (of_char c :: nat) in
     (9 \<le> n \<and> n \<le> 13) \<or> (28 \<le> n \<and> n \<le> 32) \<or> n = 133 \<or> n = 160)"

text \<open>\<^verbatim>\<open>s.strip()\<close>: leading and trailing white space removed.\<close>

definition strip :: "string \<Rightarrow> string" where
  "strip s = rev (dropWhile isspace (rev (dropWhile isspace s)))"

text \<open>
  \<^verbatim>\<open>s.split(sep)\<close> for a separator of one character: every occurrence cuts, and the
  empty string gives one empty piece.
\<close>

fun split_on :: "char \<Rightarrow> string \<Rightarrow> string list" where
  "split_on sep [] = [[]]"
| "split_on sep (c # cs) =
     (if c = sep then [] # split_on sep cs
      else (case split_on sep cs of
              [] \<Rightarrow> [[c]]
            | w # ws \<Rightarrow> (c # w) # ws))"

text \<open>
  The decimal characters are \<^verbatim>\<open>0\<close> to \<^verbatim>\<open>9\<close>. \<^verbatim>\<open>str.isdigit\<close> also accepts the characters
  of numeric type Digit, which below 256 are the superscripts U+00B2, U+00B3 and U+00B9;
  it is false on the empty string.
\<close>

definition isdecimal_char :: "char \<Rightarrow> bool" where
  "isdecimal_char c = (let n = (of_char c :: nat) in 48 \<le> n \<and> n \<le> 57)"

definition isdigit_char :: "char \<Rightarrow> bool" where
  "isdigit_char c = (let n = (of_char c :: nat) in
     (48 \<le> n \<and> n \<le> 57) \<or> n = 178 \<or> n = 179 \<or> n = 185)"

definition isdigit :: "string \<Rightarrow> bool" where
  "isdigit s = (s \<noteq> [] \<and> list_all isdigit_char s)"

definition digit_val :: "char \<Rightarrow> int" where
  "digit_val c = int (of_char c) - 48"

definition digits_val :: "string \<Rightarrow> int" where
  "digits_val s = foldl (\<lambda>acc c. 10 * acc + digit_val c) 0 s"

text \<open>
  The body of a decimal literal: decimal characters, with single underscores allowed
  between two of them.
\<close>

fun literal_body :: "string \<Rightarrow> bool" where
  "literal_body [] = False"
| "literal_body [c] = isdecimal_char c"
| "literal_body (c # d # cs) =
     (if isdecimal_char c
      then (if d = CHR ''_'' then literal_body cs else literal_body (d # cs))
      else False)"

text \<open>
  \<^verbatim>\<open>int(s)\<close> in base 10: white space around the literal is ignored, one sign is allowed,
  anything else raises \<^verbatim>\<open>ValueError\<close>. (The optional limit on the number of digits of
  recent interpreters is not modelled.)
\<close>

definition py_int :: "string \<Rightarrow> exn + int" where
  "py_int s =
     (let t = strip s;
          neg = (t \<noteq> [] \<and> hd t = CHR ''-'');
          body = (if t \<noteq> [] \<and> (hd t = CHR ''-'' \<or> hd t = CHR ''+'') then tl t else t)
      in if literal_body body
         then Inr ((if neg then - 1 else 1) * digits_val (filter (\<lambda>c. c \<noteq> CHR ''_'') body))
         else Inl (ValueError s))"

subsection \<open>Read specifications and the queries string\<close>

record read_spec =
  address :: int
  count :: int

text \<open>
  The inner loop of \<^verbatim>\<open>load_plcs_from_config\<close> over \<^verbatim>\<open>queries_raw.split(";")\<close>, with the
  list \<^verbatim>\<open>reads\<close> it appends to. An entry that is blank after \<^verbatim>\<open>strip\<close> is skipped; an
  entry whose two parts pass \<^verbatim>\<open>isdigit\<close> is converted with \<^verbatim>\<open>int\<close>, whose \<^verbatim>\<open>ValueError\<close>
  nothing in the loop catches.
\<close>

fun parse_entries :: "string list \<Rightarrow> read_spec list \<Rightarrow> exn + read_spec list" where
  "parse_entries [] reads = Inr reads"
| "parse_entries (q # qs) reads =
     (if strip q = [] then parse_entries qs reads
      else
        (let parts = split_on CHR '','' (strip q) in
         if length parts = 2 \<and> isdigit (parts ! 0) \<and> isdigit (parts ! 1)
         then (case py_int (parts ! 0) of
                 Inl e \<Rightarrow> Inl e
               | Inr a \<Rightarrow>
                   (case py_int (parts ! 1) of
                      Inl e \<Rightarrow> Inl e
                    | Inr n \<Rightarrow> parse_entries qs (reads @ [\<lparr>address = a, count = n\<rparr>])))
         else parse_entries qs reads))"

definition parse_queries :: "string \<Rightarrow> exn + read_spec list" where
  "parse_queries queries_raw = parse_entries (split_on CHR '';'' queries_raw) []"

subsection \<open>The configuration and the device list\<close>

text \<open>
  A loaded \<^verbatim>\<open>ConfigParser\<close> is the list of its sections in file order, each with its
  key/value pairs (section names are unique; the default section and interpolation are
  not modelled). \<^verbatim>\<open>proxy[key]\<close> raises \<^verbatim>\<open>KeyError\<close> on a missing key,
  \<^verbatim>\<open>proxy.get(key, fallback)\<close> does not.
\<close>

type_synonym section_proxy = "(string \<times> string) list"
type_synonym config = "(string \<times> section_proxy) list"

definition getitem :: "section_proxy \<Rightarrow> string \<Rightarrow> exn + string" where
  "getitem proxy key = (case map_of proxy key of None \<Rightarrow> Inl (KeyError key) | Some v \<Rightarrow> Inr v)"

definition get_or :: "section_proxy \<Rightarrow> string \<Rightarrow> string \<Rightarrow> string" where
  "get_or proxy key fallback = (case map_of proxy key of None \<Rightarrow> fallback | Some v \<Rightarrow> v)"

record plc =
  name :: string
  ip :: string
  port :: int
  reads :: "read_spec list"

text \<open>
  \<^verbatim>\<open>load_plcs_from_config\<close>: the loop over the sections, with the list \<^verbatim>\<open>plcs\<close> it appends
  to. The queries are parsed first; then the dictionary is built, its fields evaluated
  in the order name, ip, port (\<^verbatim>\<open>int\<close> of the text, or 502 when the key is absent).
\<close>

fun load_plcs_loop :: "config \<Rightarrow> plc list \<Rightarrow> exn + plc list" where
  "load_plcs_loop [] plcs = Inr plcs"
| "load_plcs_loop ((section, proxy) # rest) plcs =
     (if section \<noteq> ''AWS''
      then (case parse_queries (get_or proxy ''queries'' []) of
              Inl e \<Rightarrow> Inl e
            | Inr rs \<Rightarrow>
               (case getitem proxy ''name'' of
                  Inl e \<Rightarrow> Inl e
                | Inr nm \<Rightarrow>
                   (case getitem proxy ''ip'' of
                      Inl e \<Rightarrow> Inl e
                    | Inr host \<Rightarrow>
                       (case (case map_of proxy ''port'' of None \<Rightarrow> Inr 502 | Some v \<Rightarrow> py_int v) of
                          Inl e \<Rightarrow> Inl e
                        | Inr pt \<Rightarrow>
                           load_plcs_loop rest
                             (plcs @ [\<lparr>name = nm, ip = host, port = pt, reads = rs\<rparr>])))))
      else load_plcs_loop rest plcs)"

definition load_plcs_from_config :: "config \<Rightarrow> exn + plc list" where
  "load_plcs_from_config cfg = load_plcs_loop cfg []"

text \<open>The device list of \<^verbatim>\<open>ip.py\<close>.\<close>

definition DEVICES :: "plc list" where
  "DEVICES =
     [\<lparr>name = ''Modbus_Device_1'', ip = ''192.168.0.12'', port = 502,
       reads = [\<lparr>address = 0, count = 2\<rparr>]\<rparr>,
      \<lparr>name = ''Modbus_Device_2'', ip = ''192.168.0.11'', port = 502,
       reads = [\<lparr>address = 0, count = 2\<rparr>, \<lparr>address = 1, count = 2\<rparr>]\<rparr>]"

section \<open>The outside world\<close>

text \<open>
  A call into a library either returns a value or raises. What a device answers to a
  read is a response object: the registers, or an error object for which \<^verbatim>\<open>isError()\<close>
  holds, with its exception code when it has one and the text \<^verbatim>\<open>str\<close> gives.
\<close>

datatype 'a outcome = Returns 'a | Raises exn

datatype response =
    ReadRegistersResponse "int list"
  | ErrorResponse "int option" string

fun isError :: "response \<Rightarrow> bool" where
  "isError (ReadRegistersResponse regs) = False"
| "isError (ErrorResponse code txt) = True"

text \<open>The payload dictionary, as the JSON value \<^verbatim>\<open>json.dumps\<close> renders.\<close>

datatype json = JNull | JInt int | JStr string | JList "json list" | JObj "(string \<times> json) list"

text \<open>
  Every call that leaves the process is an event, recorded with what it gave: the
  connect and close of a Modbus client (with the host and port the client was made
  for), a read (address, count, whether \<^verbatim>\<open>unit=1\<close> was passed), the connect of the MQTT
  client, a publish (topic, payload, QoS) and a sleep (seconds). Console output is not
  recorded, and \<^verbatim>\<open>print\<close>, \<^verbatim>\<open>input\<close> and \<^verbatim>\<open>close\<close> are taken not to raise.
\<close>

datatype event =
    ClientConnect string int "bool outcome"
  | ClientRead int int bool "response outcome"
  | ClientClose string int
  | MqttConnect "bool outcome"
  | MqttPublish string json int "bool outcome"
  | Sleep int "unit outcome"

text \<open>
  The world decides what each call gives, from the events so far and the arguments of
  the call; \<open>clock\<close> is \<^verbatim>\<open>int(time.time() * 1000)\<close> at that moment.
\<close>

record world =
  connect_out :: "event list \<Rightarrow> string \<Rightarrow> int \<Rightarrow> bool outcome"
  read_out :: "event list \<Rightarrow> int \<Rightarrow> int \<Rightarrow> bool \<Rightarrow> response outcome"
  mqtt_connect_out :: "event list \<Rightarrow> bool outcome"
  publish_out :: "event list \<Rightarrow> string \<Rightarrow> json \<Rightarrow> bool outcome"
  sleep_out :: "event list \<Rightarrow> int \<Rightarrow> unit outcome"
  clock :: "event list \<Rightarrow> int"

section \<open>The register reader\<close>

text \<open>
  One entry of \<^verbatim>\<open>results\<close>: the address, the registers or \<^verbatim>\<open>None\<close>, the error text or
  \<^verbatim>\<open>None\<close>. \<^verbatim>\<open>if error:\<close> tests the truth of the third component.
\<close>

type_synonym read_result = "int \<times> int list option \<times> string option"

fun truthy :: "string option \<Rightarrow> bool" where
  "truthy None = False"
| "truthy (Some s) = (s \<noteq> [])"

text \<open>
  What the handlers of \<^verbatim>\<open>read_holding_registers\<close> in \<^verbatim>\<open>tcp.py\<close> make of the outcome of the
  call: an error response and every \<^verbatim>\<open>Exception\<close> become an entry with an error text;
  anything else that is raised leaves the function.
\<close>

fun classify :: "int \<Rightarrow> response outcome \<Rightarrow> exn + read_result" where
  "classify addr (Returns (ReadRegistersResponse regs)) = Inr (addr, Some regs, None)"
| "classify addr (Returns (ErrorResponse code txt)) = Inr (addr, None, Some (''Error: '' @ txt))"
| "classify addr (Raises (ModbusException m)) = Inr (addr, None, Some (''Modbus Error: '' @ m))"
| "classify addr (Raises e) =
     (if is_Exception e then Inr (addr, None, Some (''Error: '' @ str_exn e)) else Inl e)"

text \<open>
  \<^verbatim>\<open>read_holding_registers\<close> of \<^verbatim>\<open>tcp.py\<close>, with the events before the call: the result
  list (or the exception that left the function) and the events of the call.
\<close>

fun read_holding_registers ::
  "world \<Rightarrow> event list \<Rightarrow> read_spec list \<Rightarrow> (exn + read_result list) \<times> event list" where
  "read_holding_registers w h [] = (Inr [], [])"
| "read_holding_registers w h (item # rest) =
     (let out = read_out w h (address item) (count item) True;
          ev = ClientRead (address item) (count item) True out
      in case classify (address item) out of
           Inl e \<Rightarrow> (Inl e, [ev])
         | Inr r \<Rightarrow>
            (case read_holding_registers w (h @ [ev]) rest of
               (Inl e, evs) \<Rightarrow> (Inl e, ev # evs)
             | (Inr rs, evs) \<Rightarrow> (Inr (r # rs), ev # evs)))"

text \<open>\<^verbatim>\<open>str(n)\<close> of an integer, for the error texts that quote an exception code.\<close>

fun str_nat :: "nat \<Rightarrow> string" where
  "str_nat n =
     (if n < 10 then [char_of (48 + n)]
      else str_nat (n div 10) @ [char_of (48 + n mod 10)])"

definition str_int :: "int \<Rightarrow> string" where
  "str_int i = (if i < 0 then CHR ''-'' # str_nat (nat (- i)) else str_nat (nat i))"

text \<open>
  The handlers of \<^verbatim>\<open>read_holding_registers\<close> in \<^verbatim>\<open>ip.py\<close>: they differ in the text for an
  error response, \<^verbatim>\<open>getattr(response, "exception_code", "Unknown")\<close>.
\<close>

fun classify_ip :: "int \<Rightarrow> response outcome \<Rightarrow> exn + read_result" where
  "classify_ip addr (Returns (ReadRegistersResponse regs)) = Inr (addr, Some regs, None)"
| "classify_ip addr (Returns (ErrorResponse code txt)) =
     Inr (addr, None,
          Some (''Modbus Exception Code: '' @ (case code of None \<Rightarrow> ''Unknown'' | Some k \<Rightarrow> str_int k)))"
| "classify_ip addr (Raises (ModbusException m)) = Inr (addr, None, Some (''Modbus Error: '' @ m))"
| "classify_ip addr (Raises e) =
     (if is_Exception e then Inr (addr, None, Some (''Error: '' @ str_exn e)) else Inl e)"

text \<open>
  The inner \<^verbatim>\<open>try\<close> of \<^verbatim>\<open>ip.py\<close>: the call with \<^verbatim>\<open>unit=1\<close>, and on \<^verbatim>\<open>TypeError\<close> the same
  call without it. The outcome that reaches the outer handlers, and the events.
\<close>

definition read_call_ip ::
  "world \<Rightarrow> event list \<Rightarrow> read_spec \<Rightarrow> response outcome \<times> event list" where
  "read_call_ip w h item =
     (let out1 = read_out w h (address item) (count item) True;
          ev1 = ClientRead (address item) (count item) True out1
      in case out1 of
           Raises (TypeError m) \<Rightarrow>
             (let out2 = read_out w (h @ [ev1]) (address item) (count item) False
              in (out2, [ev1, ClientRead (address item) (count item) False out2]))
         | _ \<Rightarrow> (out1, [ev1]))"

fun read_holding_registers_ip ::
  "world \<Rightarrow> event list \<Rightarrow> read_spec list \<Rightarrow> (exn + read_result list) \<times> event list" where
  "read_holding_registers_ip w h [] = (Inr [], [])"
| "read_holding_registers_ip w h (item # rest) =
     (case read_call_ip w h item of
        (out, evs1) \<Rightarrow>
          (case classify_ip (address item) out of
             Inl e \<Rightarrow> (Inl e, evs1)
           | Inr r \<Rightarrow>
              (case read_holding_registers_ip w (h @ evs1) rest of
                 (Inl e, evs) \<Rightarrow> (Inl e, evs1 @ evs)
               | (Inr rs, evs) \<Rightarrow> (Inr (r # rs), evs1 @ evs))))"

section \<open>The telemetry publisher\<close>

text \<open>
  \<^verbatim>\<open>publish_to_aws\<close>: the payload is built, then published with QoS 0 inside a handler
  for \<^verbatim>\<open>Exception\<close>. The result is the exception that left the function, if any.
\<close>

definition payload :: "int \<Rightarrow> string \<Rightarrow> int \<Rightarrow> int list option \<Rightarrow> json" where
  "payload ts plc_name addr val =
     JObj [(''timestamp'', JInt ts),
           (''plc_name'', JStr plc_name),
           (''register_address'', JInt addr),
           (''value'', (case val of None \<Rightarrow> JNull | Some regs \<Rightarrow> JList (map JInt regs)))]"

definition publish_to_aws ::
  "world \<Rightarrow> event list \<Rightarrow> string \<Rightarrow> string \<Rightarrow> int \<Rightarrow> int list option \<Rightarrow> exn option \<times> event list" where
  "publish_to_aws w h topic plc_name addr val =
     (let p = payload (clock w h) plc_name addr val;
          out = publish_out w h topic p;
          ev = MqttPublish topic p 0 out
      in case out of
           Returns b \<Rightarrow> (None, [ev])
         | Raises e \<Rightarrow> (if is_Exception e then (None, [ev]) else (Some e, [ev])))"

text \<open>
  The loop over \<^verbatim>\<open>results\<close> in the polling loop of \<^verbatim>\<open>tcp.py\<close>: an entry with an error is
  logged, any other is published.
\<close>

fun publish_results ::
  "world \<Rightarrow> event list \<Rightarrow> string \<Rightarrow> string \<Rightarrow> read_result list \<Rightarrow> exn option \<times> event list" where
  "publish_results w h topic plc_name [] = (None, [])"
| "publish_results w h topic plc_name ((addr, val, err) # rest) =
     (if truthy err then publish_results w h topic plc_name rest
      else (case publish_to_aws w h topic plc_name addr val of
              (Some e, evs) \<Rightarrow> (Some e, evs)
            | (None, evs) \<Rightarrow>
               (case publish_results w (h @ evs) topic plc_name rest of
                  (r, evs') \<Rightarrow> (r, evs @ evs'))))"

section \<open>The polling loop of tcp.py\<close>

text \<open>
  The body of \<^verbatim>\<open>for plc in PLCS\<close>: connect; when that returns false, close and go on;
  otherwise read, publish, close. No handler surrounds the body, so an exception that
  leaves a call leaves the body at that point.
\<close>

definition poll_plc :: "world \<Rightarrow> string \<Rightarrow> event list \<Rightarrow> plc \<Rightarrow> exn option \<times> event list" where
  "poll_plc w topic h p =
     (let out = connect_out w h (ip p) (port p);
          ev = ClientConnect (ip p) (port p) out
      in case out of
           Raises e \<Rightarrow> (Some e, [ev])
         | Returns ok \<Rightarrow>
            (if \<not> ok then (None, [ev, ClientClose (ip p) (port p)])
             else (case read_holding_registers w (h @ [ev]) (reads p) of
                     (Inl e, evs) \<Rightarrow> (Some e, ev # evs)
                   | (Inr results, evs) \<Rightarrow>
                      (case publish_results w (h @ ev # evs) topic (name p) results of
                         (Some e, evs') \<Rightarrow> (Some e, ev # evs @ evs')
                       | (None, evs') \<Rightarrow>
                          (None, ev # evs @ evs' @ [ClientClose (ip p) (port p)])))))"

text \<open>One sweep: the \<^verbatim>\<open>for\<close> loop over the devices.\<close>

fun poll_plcs :: "world \<Rightarrow> string \<Rightarrow> event list \<Rightarrow> plc list \<Rightarrow> exn option \<times> event list" where
  "poll_plcs w topic h [] = (None, [])"
| "poll_plcs w topic h (p # rest) =
     (case poll_plc w topic h p of
        (Some e, evs) \<Rightarrow> (Some e, evs)
      | (None, evs) \<Rightarrow>
         (case poll_plcs w topic (h @ evs) rest of
            (r, evs') \<Rightarrow> (r, evs @ evs')))"

text \<open>
  \<^verbatim>\<open>while True\<close>: a sweep, then five seconds of sleep. The loop ends only by an
  exception; the fuel bounds the number of sweeps looked at, and \<open>None\<close> with no fuel
  left is a loop that is still running.
\<close>

fun polling_loop ::
  "world \<Rightarrow> string \<Rightarrow> plc list \<Rightarrow> nat \<Rightarrow> event list \<Rightarrow> exn option \<times> event list" where
  "polling_loop w topic plcs 0 h = (None, [])"
| "polling_loop w topic plcs (Suc fuel) h =
     (case poll_plcs w topic h plcs of
        (Some e, evs) \<Rightarrow> (Some e, evs)
      | (None, evs) \<Rightarrow>
         (let out = sleep_out w (h @ evs) 5;
              ev = Sleep 5 out
          in case out of
               Raises e \<Rightarrow> (Some e, evs @ [ev])
             | Returns u \<Rightarrow>
                (case polling_loop w topic plcs fuel (h @ evs @ [ev]) of
                   (r, evs') \<Rightarrow> (r, evs @ ev # evs'))))"

section \<open>The poller of ip.py\<close>

text \<open>
  \<^verbatim>\<open>connect_and_read\<close>: the whole body is inside \<^verbatim>\<open>try\<close>, with a handler for \<^verbatim>\<open>Exception\<close>
  and a \<^verbatim>\<open>finally\<close> that closes the client on every way out.
\<close>

definition connect_and_read :: "world \<Rightarrow> event list \<Rightarrow> plc \<Rightarrow> exn option \<times> event list" where
  "connect_and_read w h device_config =
     (let out = connect_out w h (ip device_config) (port device_config);
          ev = ClientConnect (ip device_config) (port device_config) out;
          fin = ClientClose (ip device_config) (port device_config)
      in case out of
           Raises e \<Rightarrow> (if is_Exception e then (None, [ev, fin]) else (Some e, [ev, fin]))
         | Returns ok \<Rightarrow>
            (if \<not> ok then (None, [ev, fin])
             else (case read_holding_registers_ip w (h @ [ev]) (reads device_config) of
                     (Inl e, evs) \<Rightarrow>
                       (if is_Exception e then (None, ev # evs @ [fin]) else (Some e, ev # evs @ [fin]))
                   | (Inr results, evs) \<Rightarrow> (None, ev # evs @ [fin]))))"

text \<open>The main loop of \<^verbatim>\<open>ip.py\<close>: each device, then one second of sleep.\<close>

fun run_devices :: "world \<Rightarrow> event list \<Rightarrow> plc list \<Rightarrow> exn option \<times> event list" where
  "run_devices w h [] = (None, [])"
| "run_devices w h (device # rest) =
     (case connect_and_read w h device of
        (Some e, evs) \<Rightarrow> (Some e, evs)
      | (None, evs) \<Rightarrow>
         (let out = sleep_out w (h @ evs) 1;
              ev = Sleep 1 out
          in case out of
               Raises e \<Rightarrow> (Some e, evs @ [ev])
             | Returns u \<Rightarrow>
                (case run_devices w (h @ evs @ [ev]) rest of
                   (r, evs') \<Rightarrow> (r, evs @ ev # evs'))))"

section \<open>The start of tcp.py\<close>

text \<open>
  What the start reads from the machine: which paths exist, how \<^verbatim>\<open>os.path.join\<close> joins
  two of them, and the configuration that \<^verbatim>\<open>ConfigParser.read\<close> finds in a file.
\<close>

record filesystem =
  path_exists :: "string \<Rightarrow> bool"
  path_join :: "string \<Rightarrow> string \<Rightarrow> string"
  config_at :: "string \<Rightarrow> config"

definition and_then :: "exn + 'a \<Rightarrow> ('a \<Rightarrow> exn + 'b) \<Rightarrow> exn + 'b" where
  "and_then m f = (case m of Inl e \<Rightarrow> Inl e | Inr x \<Rightarrow> f x)"

definition load_config_debug :: "filesystem \<Rightarrow> string \<Rightarrow> exn + config" where
  "load_config_debug fs filename =
     (if \<not> path_exists fs filename
      then Inl (FileNotFoundError (''Config file not found at: '' @ filename))
      else (let cfg = config_at fs filename
            in if ''AWS'' \<notin> set (map fst cfg)
               then Inl (KeyError ''Missing [AWS] section in config file.'')
               else Inr cfg))"

record aws_settings =
  thing_name :: string
  endpoint :: string
  aws_port :: int
  root_ca :: string
  private_key :: string
  certificate :: string
  topic :: string

text \<open>The loop of \<^verbatim>\<open>load_aws_config\<close> that checks the three certificate files.\<close>

fun check_certs :: "filesystem \<Rightarrow> section_proxy \<Rightarrow> string \<Rightarrow> string list \<Rightarrow> exn + unit" where
  "check_certs fs aws_config certs_folder [] = Inr ()"
| "check_certs fs aws_config certs_folder (key # keys) =
     and_then (getitem aws_config key) (\<lambda>file.
       (let cert_path = path_join fs certs_folder file
        in if \<not> path_exists fs cert_path
           then Inl (FileNotFoundError (''Certificate file '' @ key @ '' not found at: '' @ cert_path))
           else check_certs fs aws_config certs_folder keys))"

definition load_aws_config :: "filesystem \<Rightarrow> config \<Rightarrow> exn + aws_settings" where
  "load_aws_config fs cfg =
     and_then (case map_of cfg ''AWS'' of None \<Rightarrow> Inl (KeyError ''AWS'') | Some v \<Rightarrow> Inr v) (\<lambda>aws_config.
     and_then (getitem aws_config ''certs_folder'') (\<lambda>certs_folder.
     and_then (check_certs fs aws_config certs_folder [''root_ca'', ''private_key'', ''certificate'']) (\<lambda>u.
     and_then (getitem aws_config ''thing_name'') (\<lambda>tn.
     and_then (getitem aws_config ''endpoint'') (\<lambda>ep.
     and_then (getitem aws_config ''port'') (\<lambda>pt_raw.
     and_then (py_int pt_raw) (\<lambda>pt.
     and_then (getitem aws_config ''root_ca'') (\<lambda>ca.
     and_then (getitem aws_config ''private_key'') (\<lambda>pk.
     and_then (getitem aws_config ''certificate'') (\<lambda>cert.
     and_then (getitem aws_config ''topic'') (\<lambda>tp.
       Inr \<lparr>thing_name = tn, endpoint = ep, aws_port = pt,
            root_ca = path_join fs certs_folder ca,
            private_key = path_join fs certs_folder pk,
            certificate = path_join fs certs_folder cert,
            topic = tp\<rparr>)))))))))))"

definition config_file :: string where
  "config_file = ''D:'' @ [CHR 0x5C] @ ''Server code'' @ [CHR 0x5C] @ ''aws'' @ [CHR 0x5C] @ ''config.ini''"

text \<open>
  How the process ends: \<^verbatim>\<open>sys.exit(1)\<close>, the end of the script (status 0), or an
  exception that nothing caught (a traceback and a non-zero status).
\<close>

datatype exit_status = Exit0 | Exit1 | Traceback exn

text \<open>The three loading calls inside the first \<^verbatim>\<open>try\<close> of the main block.\<close>

definition load_all :: "filesystem \<Rightarrow> exn + aws_settings \<times> plc list" where
  "load_all fs =
     and_then (load_config_debug fs config_file) (\<lambda>cfg.
     and_then (load_aws_config fs cfg) (\<lambda>aws.
     and_then (load_plcs_from_config cfg) (\<lambda>plcs. Inr (aws, plcs))))"

text \<open>
  The handler of the first \<^verbatim>\<open>try\<close>: \<^verbatim>\<open>except (FileNotFoundError, KeyError)\<close>.
\<close>

fun config_error :: "exn \<Rightarrow> bool" where
  "config_error (FileNotFoundError m) = True"
| "config_error (KeyError m) = True"
| "config_error _ = False"

text \<open>
  The main block of \<^verbatim>\<open>tcp.py\<close>: load or exit with 1; connect the MQTT client or exit with
  1; poll until \<^verbatim>\<open>KeyboardInterrupt\<close>. \<open>None\<close> is a process still polling when the fuel
  is used up.
\<close>

definition main :: "filesystem \<Rightarrow> world \<Rightarrow> nat \<Rightarrow> exit_status option \<times> event list" where
  "main fs w fuel =
     (case load_all fs of
        Inl e \<Rightarrow> (if config_error e then (Some Exit1, []) else (Some (Traceback e), []))
      | Inr (aws, plcs) \<Rightarrow>
         (let out = mqtt_connect_out w [];
              ev = MqttConnect out
          in case out of
               Raises e \<Rightarrow> (if is_Exception e then (Some Exit1, [ev]) else (Some (Traceback e), [ev]))
             | Returns b \<Rightarrow>
                (case polling_loop w (topic aws) plcs fuel [ev] of
                   (None, evs) \<Rightarrow> (None, ev # evs)
                 | (Some e, evs) \<Rightarrow>
                    (if e = KeyboardInterrupt then (Some Exit0, ev # evs)
                     else (Some (Traceback e), ev # evs)))))"

section \<open>Notions used in the statements\<close>

definition nonneg_spec :: "read_spec \<Rightarrow> bool" where
  "nonneg_spec s = (0 \<le> address s \<and> 0 \<le> count s)"

text \<open>A configuration with one device whose only query has the count zero.\<close>

definition cfg_zero_count :: config where
  "cfg_zero_count =
     [(''AWS'', []),
      (''PLC1'', [(''name'', ''A''), (''ip'', ''10.0.0.5''), (''queries'', ''5,0'')])]"

text \<open>
  A read has failed when its call gave anything but a register response; an entry of
  \<^verbatim>\<open>results\<close> is an error entry when the polling loop's test \<^verbatim>\<open>if error:\<close> holds for it.
\<close>

fun failed :: "response outcome \<Rightarrow> bool" where
  "failed (Returns (ReadRegistersResponse regs)) = False"
| "failed _ = True"

fun is_err :: "read_result \<Rightarrow> bool" where
  "is_err (addr, val, err) = truthy err"

text \<open>The read calls of a trace: what was asked, and what each call gave.\<close>

fun read_requests :: "event list \<Rightarrow> (int \<times> int \<times> bool) list" where
  "read_requests [] = []"
| "read_requests (ClientRead a n u out # evs) = (a, n, u) # read_requests evs"
| "read_requests (ev # evs) = read_requests evs"

fun read_outcomes :: "event list \<Rightarrow> response outcome list" where
  "read_outcomes [] = []"
| "read_outcomes (ClientRead a n u out # evs) = out # read_outcomes evs"
| "read_outcomes (ev # evs) = read_outcomes evs"

text \<open>
  In \<^verbatim>\<open>ip.py\<close> a call with \<^verbatim>\<open>unit=1\<close> that raised \<^verbatim>\<open>TypeError\<close> is superseded by the call
  without it.
\<close>

fun superseded :: "event \<Rightarrow> bool" where
  "superseded (ClientRead a n True (Raises (TypeError m))) = True"
| "superseded _ = False"

text \<open>
  A device that answers the address 1 with an exception response and every other
  address with two registers, and three reads of it.
\<close>

definition world_one_fault :: world where
  "world_one_fault =
     \<lparr>connect_out = (\<lambda>h host pt. Returns True),
      read_out = (\<lambda>h a n u. if a = 1 then Returns (ErrorResponse (Some 2) ''Exception Response(131, 3, IllegalAddress)'')
                             else Returns (ReadRegistersResponse [7, 42])),
      mqtt_connect_out = (\<lambda>h. Returns True),
      publish_out = (\<lambda>h t p. Returns True),
      sleep_out = (\<lambda>h n. Returns ()),
      clock = (\<lambda>h. 1700000000000 + int (length h))\<rparr>"

definition three_reads :: "read_spec list" where
  "three_reads = [\<lparr>address = 0, count = 2\<rparr>, \<lparr>address = 1, count = 2\<rparr>, \<lparr>address = 4, count = 2\<rparr>]"

text \<open>
  The calls \<^verbatim>\<open>ip.py\<close> makes for one read specification, with the outcome that counts:
  one call with \<^verbatim>\<open>unit=1\<close> that did not raise \<^verbatim>\<open>TypeError\<close>, or such a call that did,
  followed by the same call without \<^verbatim>\<open>unit\<close>.
\<close>

fun is_TypeError :: "response outcome \<Rightarrow> bool" where
  "is_TypeError (Raises (TypeError m)) = True"
| "is_TypeError _ = False"

fun ip_block :: "read_spec \<Rightarrow> event list \<Rightarrow> response outcome \<Rightarrow> bool" where
  "ip_block s [ClientRead a n u out1] out =
     (a = address s \<and> n = count s \<and> u \<and> out1 = out \<and> \<not> is_TypeError out)"
| "ip_block s [ClientRead a n u out1, ClientRead a' n' u' out2] out =
     (a = address s \<and> n = count s \<and> u \<and> is_TypeError out1 \<and>
      a' = address s \<and> n' = count s \<and> \<not> u' \<and> out2 = out)"
| "ip_block s evs out = False"

text \<open>
  What the statements assume of the world, where they assume something: that a read or
  a publish raises nothing but an \<^verbatim>\<open>Exception\<close> (so no interrupt of the process arrives
  during the call), that a connect to a device returns its truth value, and that a
  sleep returns, or is ended by nothing but the interrupt.
\<close>

definition reads_raise_only_Exception :: "world \<Rightarrow> bool" where
  "reads_raise_only_Exception w =
     (\<forall>h a n u e. read_out w h a n u = Raises e \<longrightarrow> is_Exception e)"

definition publishes_raise_only_Exception :: "world \<Rightarrow> bool" where
  "publishes_raise_only_Exception w =
     (\<forall>h t p e. publish_out w h t p = Raises e \<longrightarrow> is_Exception e)"

definition connect_returns :: "world \<Rightarrow> bool" where
  "connect_returns w = (\<forall>h host pt. \<exists>b. connect_out w h host pt = Returns b)"

definition sleep_returns :: "world \<Rightarrow> bool" where
  "sleep_returns w = (\<forall>h n. sleep_out w h n = Returns ())"

definition sleep_only_interrupted :: "world \<Rightarrow> bool" where
  "sleep_only_interrupted w = (\<forall>h n e. sleep_out w h n = Raises e \<longrightarrow> e = KeyboardInterrupt)"

text \<open>
  A client library that rejects the keyword \<^verbatim>\<open>unit\<close> and answers the call without it.
\<close>

definition world_unit_rejected :: world where
  "world_unit_rejected =
     \<lparr>connect_out = (\<lambda>h host pt. Returns True),
      read_out = (\<lambda>h a n u. if u then Raises (TypeError ''unexpected keyword argument unit'')
                             else Returns (ReadRegistersResponse [7, 42])),
      mqtt_connect_out = (\<lambda>h. Returns True),
      publish_out = (\<lambda>h t p. Returns True),
      sleep_out = (\<lambda>h n. Returns ()),
      clock = (\<lambda>h. 1700000000000 + int (length h))\<rparr>"

text \<open>
  The parts of a trace: its publishes (the payloads handed to the channel, in order),
  its successful reads (address and registers) and its connects (host and port).
\<close>

fun is_read :: "event \<Rightarrow> bool" where
  "is_read (ClientRead a n u out) = True"
| "is_read _ = False"

fun is_publish :: "event \<Rightarrow> bool" where
  "is_publish (MqttPublish t p q out) = True"
| "is_publish _ = False"

fun published :: "event list \<Rightarrow> json list" where
  "published [] = []"
| "published (MqttPublish t p q out # evs) = p # published evs"
| "published (ev # evs) = published evs"

fun ok_reads :: "event list \<Rightarrow> (int \<times> int list) list" where
  "ok_reads [] = []"
| "ok_reads (ClientRead a n u (Returns (ReadRegistersResponse regs)) # evs) = (a, regs) # ok_reads evs"
| "ok_reads (ev # evs) = ok_reads evs"

fun connects :: "event list \<Rightarrow> (string \<times> int) list" where
  "connects [] = []"
| "connects (ClientConnect host pt out # evs) = (host, pt) # connects evs"
| "connects (ev # evs) = connects evs"

text \<open>A payload without its time stamp, and the message that is due for a read.\<close>

fun sans_timestamp :: "json \<Rightarrow> json" where
  "sans_timestamp (JObj kvs) = JObj (filter (\<lambda>kv. fst kv \<noteq> ''timestamp'') kvs)"
| "sans_timestamp j = j"

definition message_due :: "string \<times> int \<times> int list \<Rightarrow> json" where
  "message_due t =
     (case t of (nm, a, regs) \<Rightarrow>
        JObj [(''plc_name'', JStr nm), (''register_address'', JInt a),
              (''value'', JList (map JInt regs))])"

text \<open>
  The telemetry that is due for the trace of a sweep over a device list: every
  successful read, in the order of the trace, with the name of the device polled at
  that moment (the k-th connect of the sweep is to the k-th device of the list).
\<close>

fun telemetry_due :: "string \<Rightarrow> plc list \<Rightarrow> event list \<Rightarrow> (string \<times> int \<times> int list) list" where
  "telemetry_due cur ps [] = []"
| "telemetry_due cur ps (ClientConnect host pt out # evs) =
     (case ps of [] \<Rightarrow> telemetry_due cur [] evs | p # ps' \<Rightarrow> telemetry_due (name p) ps' evs)"
| "telemetry_due cur ps (ClientRead a n u (Returns (ReadRegistersResponse regs)) # evs) =
     (cur, a, regs) # telemetry_due cur ps evs"
| "telemetry_due cur ps (ev # evs) = telemetry_due cur ps evs"

text \<open>
  The events of one device in a sweep of \<^verbatim>\<open>tcp.py\<close> that nothing interrupts: the connect
  and what it returned, the reads, the publishes (one per successful read, in order),
  and the close; no read and no publish after a connect that returned false.
\<close>

definition device_block :: "string \<Rightarrow> plc \<Rightarrow> event list \<Rightarrow> bool" where
  "device_block tpc p blk =
     (\<exists>b revs pevs.
        blk = ClientConnect (ip p) (port p) (Returns b) # revs @ pevs @ [ClientClose (ip p) (port p)]
        \<and> list_all is_read revs \<and> list_all is_publish pevs
        \<and> (if b then length revs = length (reads p) else revs = [] \<and> pevs = [])
        \<and> list_all2 (\<lambda>ev (a, regs). \<exists>ts out. ev = MqttPublish tpc (payload ts (name p) a (Some regs)) 0 out)
             pevs (ok_reads revs))"

text \<open>Devices and worlds for the examples.\<close>

definition plc_A :: plc where
  "plc_A = \<lparr>name = ''A'', ip = ''10.0.0.5'', port = 502, reads = [\<lparr>address = 0, count = 2\<rparr>]\<rparr>"

definition plc_B :: plc where
  "plc_B = \<lparr>name = ''B'', ip = ''10.0.0.6'', port = 502,
            reads = [\<lparr>address = 0, count = 2\<rparr>, \<lparr>address = 1, count = 2\<rparr>]\<rparr>"

definition plc_C :: plc where
  "plc_C = \<lparr>name = ''C'', ip = ''10.0.0.7'', port = 502, reads = three_reads\<rparr>"


text \<open>The device at 10.0.0.6 cannot be reached; every other answers with 7 and 42.\<close>

definition world_B_down :: world where
  "world_B_down =
     \<lparr>connect_out = (\<lambda>h host pt. Returns (host \<noteq> ''10.0.0.6'')),
      read_out = (\<lambda>h a n u. Returns (ReadRegistersResponse [7, 42])),
      mqtt_connect_out = (\<lambda>h. Returns True),
      publish_out = (\<lambda>h t p. Returns True),
      sleep_out = (\<lambda>h n. Returns ()),
      clock = (\<lambda>h. 1700000000000 + int (length h))\<rparr>"

text \<open>
  A machine on which every file exists and the configuration file holds a complete
  \<^verbatim>\<open>AWS\<close> section and one device; and a world in which the MQTT broker cannot be reached.
\<close>

definition cfg_good :: config where
  "cfg_good =
     [(''AWS'', [(''thing_name'', ''bridge''), (''endpoint'', ''broker.example.com''),
                (''port'', ''8883''), (''certs_folder'', ''certs''), (''root_ca'', ''root.pem''),
                (''private_key'', ''key.pem''), (''certificate'', ''cert.pem''),
                (''topic'', ''telemetry'')]),
      (''PLC1'', [(''name'', ''A''), (''ip'', ''10.0.0.5''), (''queries'', ''0,2'')])]"

definition fs_good :: filesystem where
  "fs_good = \<lparr>path_exists = (\<lambda>f. True),
              path_join = (\<lambda>a b. a @ ''/'' @ b),
              config_at = (\<lambda>f. cfg_good)\<rparr>"

definition world_mqtt_down :: world where
  "world_mqtt_down =
     \<lparr>connect_out = (\<lambda>h host pt. Returns True),
      read_out = (\<lambda>h a n u. Returns (ReadRegistersResponse [7, 42])),
      mqtt_connect_out = (\<lambda>h. Raises (OtherException ''connect timeout'')),
      publish_out = (\<lambda>h t p. Returns True),
      sleep_out = (\<lambda>h n. Returns ()),
      clock = (\<lambda>h. 1700000000000 + int (length h))\<rparr>"

text \<open>Every device fails in some way, and so does every publish.\<close>

definition world_all_faults :: world where
  "world_all_faults =
     \<lparr>connect_out = (\<lambda>h host pt. Returns (host \<noteq> ''10.0.0.6'')),
      read_out = (\<lambda>h a n u. if a = 0 then Raises (ModbusException ''no response'')
                             else if a = 1 then Returns (ErrorResponse (Some 2) ''ExceptionResponse'')
                             else Returns (ReadRegistersResponse [7, 42])),
      mqtt_connect_out = (\<lambda>h. Returns True),
      publish_out = (\<lambda>h t p. Raises (OtherException ''publish timeout'')),
      sleep_out = (\<lambda>h n. Returns ()),
      clock = (\<lambda>h. 1700000000000 + int (length h))\<rparr>"

text \<open>The operator presses Ctrl-C while the first read of a sweep is under way.\<close>

definition world_interrupt :: world where
  "world_interrupt =
     \<lparr>connect_out = (\<lambda>h host pt. Returns True),
      read_out = (\<lambda>h a n u. Raises KeyboardInterrupt),
      mqtt_connect_out = (\<lambda>h. Returns True),
      publish_out = (\<lambda>h t p. Returns True),
      sleep_out = (\<lambda>h n. Returns ()),
      clock = (\<lambda>h. 1700000000000 + int (length h))\<rparr>"

text \<open>
  A configuration whose device has the queries \<^verbatim>\<open>1,\<close> followed by the superscript two
  (U+00B2).
\<close>

definition cfg_superscript :: config where
  "cfg_superscript =
     [(''AWS'', [(''thing_name'', ''bridge''), (''endpoint'', ''broker.example.com''),
                (''port'', ''8883''), (''certs_folder'', ''certs''), (''root_ca'', ''root.pem''),
                (''private_key'', ''key.pem''), (''certificate'', ''cert.pem''),
                (''topic'', ''telemetry'')]),
      (''PLC1'', [(''name'', ''A''), (''ip'', ''10.0.0.5''),
                 (''queries'', [CHR ''1'', CHR '','', CHR 0xB2])])]"

definition fs_superscript :: filesystem where
  "fs_superscript = \<lparr>path_exists = (\<lambda>f. True),
                     path_join = (\<lambda>a b. a @ ''/'' @ b),
                     config_at = (\<lambda>f. cfg_superscript)\<rparr>"

text \<open>
  A non-negative integer as the configuration writes it: one or more decimal digits.
  An entry is two of them separated by one comma; \<open>entry_spec\<close> is the read
  specification it stands for, if it is one. A string has no superscript when each of
  its characters that \<^verbatim>\<open>isdigit\<close> accepts is a decimal digit.
\<close>

definition decimal_literal :: "string \<Rightarrow> bool" where
  "decimal_literal s = (s \<noteq> [] \<and> list_all isdecimal_char s)"

definition entry_spec :: "string \<Rightarrow> read_spec option" where
  "entry_spec e =
     (let a = takeWhile (\<lambda>c. c \<noteq> CHR '','') e;
          r = dropWhile (\<lambda>c. c \<noteq> CHR '','') e
      in if r \<noteq> [] \<and> decimal_literal a \<and> decimal_literal (tl r)
         then Some \<lparr>address = digits_val a, count = digits_val (tl r)\<rparr>
         else None)"

definition no_superscript :: "string \<Rightarrow> bool" where
  "no_superscript s = list_all (\<lambda>c. isdecimal_char c \<or> \<not> isdigit_char c) s"

text \<open>The events that open or close a session.\<close>

fun is_session :: "event \<Rightarrow> bool" where
  "is_session (ClientConnect host pt out) = True"
| "is_session (ClientClose host pt) = True"
| "is_session _ = False"


text \<open>
  The connect to 10.0.0.5 does not return false but raises (a host name that the
  resolver refuses); every other device is reached and answers with 7 and 42.
\<close>

definition world_connect_raises :: world where
  "world_connect_raises =
     \<lparr>connect_out = (\<lambda>h host pt. if host = ''10.0.0.5''
                                   then Raises (OtherException ''label empty or too long'')
                                   else Returns True),
      read_out = (\<lambda>h a n u. Returns (ReadRegistersResponse [7, 42])),
      mqtt_connect_out = (\<lambda>h. Returns True),
      publish_out = (\<lambda>h t p. Returns True),
      sleep_out = (\<lambda>h n. Returns ()),
      clock = (\<lambda>h. 1700000000000 + int (length h))\<rparr>"

section \<open>Parsing the queries\<close>

lemma isdigit_char_not_space: "isdigit_char c \<Longrightarrow> \<not> isspace c"
  by (auto simp: isdigit_char_def isspace_def Let_def)

lemma strip_id: "s \<noteq> [] \<Longrightarrow> \<not> isspace (hd s) \<Longrightarrow> \<not> isspace (last s) \<Longrightarrow> strip s = s"
proof -
  assume ne: "s \<noteq> []" and h: "\<not> isspace (hd s)" and l: "\<not> isspace (last s)"
  from h have 1: "dropWhile isspace s = s" by (simp add: dropWhile_eq_self_iff)
  from ne l have 2: "dropWhile isspace (rev s) = rev s" by (simp add: dropWhile_eq_self_iff hd_rev)
  show ?thesis by (simp add: strip_def 1 2)
qed

lemma isdigit_strip: "isdigit s \<Longrightarrow> strip s = s"
proof -
  assume d: "isdigit s"
  then have ne: "s \<noteq> []" and all: "\<forall>c\<in>set s. isdigit_char c"
    by (auto simp: isdigit_def list_all_iff)
  from ne all have "isdigit_char (hd s)" "isdigit_char (last s)" by auto
  then show ?thesis using ne by (intro strip_id) (auto dest: isdigit_char_not_space)
qed

lemma foldl_digits_nonneg:
  "0 \<le> acc \<Longrightarrow> \<forall>c\<in>set s. 0 \<le> digit_val c \<Longrightarrow> 0 \<le> foldl (\<lambda>acc c. 10 * acc + digit_val c) acc s"
  by (induction s arbitrary: acc) auto

lemma isdigit_char_val: "isdigit_char c \<Longrightarrow> 0 \<le> digit_val c"
  by (auto simp: isdigit_char_def digit_val_def Let_def)

lemma py_int_isdigit_nonneg:
  assumes "isdigit s" "py_int s = Inr v"
  shows "0 \<le> v"
proof -
  from assms(1) have ne: "s \<noteq> []" and all: "\<forall>c\<in>set s. isdigit_char c"
    by (auto simp: isdigit_def list_all_iff)
  then have hd: "isdigit_char (hd s)" by auto
  then have nosign: "hd s \<noteq> CHR ''-''" "hd s \<noteq> CHR ''+''"
    by (auto simp: isdigit_char_def Let_def)
  have "0 \<le> digits_val (filter (\<lambda>c. c \<noteq> CHR ''_'') s)"
    unfolding digits_val_def using all
    by (intro foldl_digits_nonneg) (auto dest: isdigit_char_val)
  then show ?thesis
    using assms(2) nosign ne isdigit_strip[OF assms(1)]
    by (auto simp: py_int_def Let_def split: if_splits)
qed

lemma parse_entries_nonneg:
  "parse_entries qs acc = Inr rs \<Longrightarrow> list_all nonneg_spec acc \<Longrightarrow> list_all nonneg_spec rs"
proof (induction qs arbitrary: acc)
  case Nil
  then show ?case by simp
next
  case (Cons q qs)
  show ?case
  proof (cases "strip q \<noteq> [] \<and> length (split_on CHR '','' (strip q)) = 2
       \<and> isdigit (split_on CHR '','' (strip q) ! 0) \<and> isdigit (split_on CHR '','' (strip q) ! 1)")
    case False
    with Cons.prems have "parse_entries qs acc = Inr rs"
      by (auto simp: Let_def split: if_splits)
    with Cons show ?thesis by blast
  next
    case True
    with Cons.prems obtain a n where
      a: "py_int (split_on CHR '','' (strip q) ! 0) = Inr a" and
      n: "py_int (split_on CHR '','' (strip q) ! 1) = Inr n" and
      rest: "parse_entries qs (acc @ [\<lparr>address = a, count = n\<rparr>]) = Inr rs"
      by (auto simp: Let_def split: sum.splits)
    from True a n have "0 \<le> a" "0 \<le> n"
      by (auto dest: py_int_isdigit_nonneg)
    with Cons.prems(2) have "list_all nonneg_spec (acc @ [\<lparr>address = a, count = n\<rparr>])"
      by (simp add: nonneg_spec_def list_all_iff)
    with rest Cons.IH show ?thesis by blast
  qed
qed

lemma load_plcs_loop_nonneg:
  "load_plcs_loop cfg acc = Inr ps \<Longrightarrow> \<forall>p\<in>set acc. list_all nonneg_spec (reads p)
     \<Longrightarrow> \<forall>p\<in>set ps. list_all nonneg_spec (reads p)"
proof (induction cfg acc rule: load_plcs_loop.induct)
  case (1 plcs)
  then show ?case by simp
next
  case (2 sect proxy rest plcs)
  show ?case
  proof (cases "sect \<noteq> ''AWS''")
    case False
    with 2 show ?thesis by simp
  next
    case True
    with "2.prems"(1) obtain rs nm host pt where
      rs: "parse_queries (get_or proxy ''queries'' []) = Inr rs" and
      nm: "getitem proxy ''name'' = Inr nm" and
      host: "getitem proxy ''ip'' = Inr host" and
      pt: "(case map_of proxy ''port'' of None \<Rightarrow> Inr 502 | Some v \<Rightarrow> py_int v) = Inr pt" and
      rest: "load_plcs_loop rest (plcs @ [\<lparr>name = nm, ip = host, port = pt, reads = rs\<rparr>]) = Inr ps"
      by (auto split: sum.splits)
    from rs have "list_all nonneg_spec rs"
      unfolding parse_queries_def by (rule parse_entries_nonneg) simp
    with "2.prems"(2)
    have "\<forall>p\<in>set (plcs @ [\<lparr>name = nm, ip = host, port = pt, reads = rs\<rparr>]). list_all nonneg_spec (reads p)"
      by auto
    from "2.IH"(1)[OF True rs nm host pt rest this] show ?thesis .
  qed
qed

text \<open>
  C6, as stated, fails: the entry \<^verbatim>\<open>5,0\<close> passes both \<^verbatim>\<open>isdigit\<close> tests, and the device
  record that is loaded holds a read specification with the count zero.
\<close>

theorem zero_count_is_loaded:
  "load_plcs_from_config cfg_zero_count =
     Inr [\<lparr>name = ''A'', ip = ''10.0.0.5'', port = 502, reads = [\<lparr>address = 5, count = 0\<rparr>]\<rparr>]"
  by code_simp

text \<open>
  C6, amended: every read specification of every device record that
  \<^verbatim>\<open>load_plcs_from_config\<close> returns has an address and a count that are at least zero.
  Nothing in the loading tests the count against one.
\<close>

theorem loaded_specs_nonneg:
  assumes "load_plcs_from_config cfg = Inr plcs"
  shows "\<forall>p\<in>set plcs. \<forall>s\<in>set (reads p). 0 \<le> address s \<and> 0 \<le> count s"
  using load_plcs_loop_nonneg[OF assms[unfolded load_plcs_from_config_def]]
  by (auto simp: list_all_iff nonneg_spec_def)

theorem loaded_specs_nonneg_witness:
  "load_plcs_from_config
       [(''AWS'', []), (''PLC2'', [(''name'', ''B''), (''ip'', ''10.0.0.6''), (''queries'', ''0,2; 1,2'')])]
     = Inr [\<lparr>name = ''B'', ip = ''10.0.0.6'', port = 502,
            reads = [\<lparr>address = 0, count = 2\<rparr>, \<lparr>address = 1, count = 2\<rparr>]\<rparr>]
   \<and> list_all (\<lambda>p. list_all (\<lambda>s. 0 \<le> address s \<and> 0 \<le> count s) (reads p))
        [\<lparr>name = ''B'', ip = ''10.0.0.6'', port = 502,
          reads = [\<lparr>address = 0, count = 2\<rparr>, \<lparr>address = 1, count = 2\<rparr>]\<rparr>]"
proof -
  have h: "load_plcs_from_config
       [(''AWS'', []), (''PLC2'', [(''name'', ''B''), (''ip'', ''10.0.0.6''), (''queries'', ''0,2; 1,2'')])]
     = Inr [\<lparr>name = ''B'', ip = ''10.0.0.6'', port = 502,
            reads = [\<lparr>address = 0, count = 2\<rparr>, \<lparr>address = 1, count = 2\<rparr>]\<rparr>]"
    by code_simp
  show ?thesis using h loaded_specs_nonneg[OF h] by (simp only: list_all_iff)
qed

section \<open>The register reader\<close>

lemma classify_Exception:
  assumes "\<And>e. out = Raises e \<Longrightarrow> is_Exception e"
  shows "\<exists>v er. classify addr out = Inr (addr, v, er) \<and> truthy er = failed out"
proof (cases out)
  case (Returns r)
  then show ?thesis by (cases r) auto
next
  case (Raises e)
  with assms have "is_Exception e" by simp
  with Raises show ?thesis by (cases e) auto
qed

lemma classify_ip_Exception:
  assumes "\<And>e. out = Raises e \<Longrightarrow> is_Exception e"
  shows "\<exists>v er. classify_ip addr out = Inr (addr, v, er) \<and> truthy er = failed out"
proof (cases out)
  case (Returns r)
  then show ?thesis by (cases r) auto
next
  case (Raises e)
  with assms have "is_Exception e" by simp
  with Raises show ?thesis by (cases e) auto
qed

lemma read_outcomes_append: "read_outcomes (xs @ ys) = read_outcomes xs @ read_outcomes ys"
  by (induction xs rule: read_outcomes.induct) auto


lemma reader_tcp_shape:
  assumes H: "reads_raise_only_Exception w"
  shows "\<exists>results outs. length outs = length specs
     \<and> read_holding_registers w h specs =
         (Inr results, map (\<lambda>(s, out). ClientRead (address s) (count s) True out) (zip specs outs))
     \<and> length results = length specs
     \<and> map fst results = map address specs
     \<and> map is_err results = map failed outs"
proof (induction specs arbitrary: h)
  case Nil
  show ?case by simp
next
  case (Cons item rest)
  let ?out = "read_out w h (address item) (count item) True"
  let ?ev = "ClientRead (address item) (count item) True ?out"
  from H have "\<And>e. ?out = Raises e \<Longrightarrow> is_Exception e"
    unfolding reads_raise_only_Exception_def by blast
  from classify_Exception[OF this] obtain v er where
    c: "classify (address item) ?out = Inr (address item, v, er)" and t: "truthy er = failed ?out"
    by blast
  from Cons.IH[of "h @ [?ev]"] obtain results outs where
    n: "length outs = length rest"
    and r: "read_holding_registers w (h @ [?ev]) rest =
       (Inr results, map (\<lambda>(s, out). ClientRead (address s) (count s) True out) (zip rest outs))"
    and l: "length results = length rest" and m: "map fst results = map address rest"
    and e: "map is_err results = map failed outs"
    by blast
  have "read_holding_registers w h (item # rest) = (Inr ((address item, v, er) # results),
      map (\<lambda>(s, out). ClientRead (address s) (count s) True out) (zip (item # rest) (?out # outs)))"
    by (simp add: Let_def c r)
  moreover have "length (?out # outs) = length (item # rest)" using n by simp
  moreover have "length ((address item, v, er) # results) = length (item # rest)" using l by simp
  moreover have "map fst ((address item, v, er) # results) = map address (item # rest)" using m by simp
  moreover have "map is_err ((address item, v, er) # results) = map failed (?out # outs)" using e t by simp
  ultimately show ?case by blast
qed

lemma read_call_ip_block:
  "\<exists>b out. read_call_ip w h item = (out, b) \<and> ip_block item b out
      \<and> (reads_raise_only_Exception w \<longrightarrow> (\<forall>e. out = Raises e \<longrightarrow> is_Exception e))"
proof (cases "is_TypeError (read_out w h (address item) (count item) True)")
  case True
  then obtain m where "read_out w h (address item) (count item) True = Raises (TypeError m)"
    by (metis is_TypeError.elims(2))
  then show ?thesis
    by (auto simp: read_call_ip_def Let_def reads_raise_only_Exception_def)
next
  case False
  then have "read_call_ip w h item = (read_out w h (address item) (count item) True,
       [ClientRead (address item) (count item) True (read_out w h (address item) (count item) True)])"
    by (auto simp: read_call_ip_def Let_def split: outcome.splits exn.splits)
  with False show ?thesis
    by (auto simp: reads_raise_only_Exception_def)
qed

lemma reader_ip_shape:
  assumes H: "reads_raise_only_Exception w"
  shows "\<exists>results bos. read_holding_registers_ip w h specs = (Inr results, concat (map fst bos))
     \<and> list_all2 (\<lambda>s (b, out). ip_block s b out) specs bos
     \<and> length results = length specs
     \<and> map fst results = map address specs
     \<and> map is_err results = map failed (map snd bos)"
proof (induction specs arbitrary: h)
  case Nil
  show ?case by simp
next
  case (Cons item rest)
  from read_call_ip_block[of w h item] H obtain b out where
    rc: "read_call_ip w h item = (out, b)" and blk: "ip_block item b out"
    and ex: "\<And>e. out = Raises e \<Longrightarrow> is_Exception e"
    by blast
  from classify_ip_Exception[OF ex] obtain v er where
    c: "classify_ip (address item) out = Inr (address item, v, er)" and t: "truthy er = failed out"
    by blast
  from Cons.IH[of "h @ b"] obtain results bos where
    r: "read_holding_registers_ip w (h @ b) rest = (Inr results, concat (map fst bos))"
    and a: "list_all2 (\<lambda>s (b, out). ip_block s b out) rest bos"
    and l: "length results = length rest" and m: "map fst results = map address rest"
    and e: "map is_err results = map failed (map snd bos)"
    by blast
  have "read_holding_registers_ip w h (item # rest) =
      (Inr ((address item, v, er) # results), concat (map fst ((b, out) # bos)))"
    by (simp add: rc c r)
  moreover have "list_all2 (\<lambda>s (b, out). ip_block s b out) (item # rest) ((b, out) # bos)"
    using a blk by simp
  moreover have "length ((address item, v, er) # results) = length (item # rest)" using l by simp
  moreover have "map fst ((address item, v, er) # results) = map address (item # rest)" using m by simp
  moreover have "map is_err ((address item, v, er) # results) = map failed (map snd ((b, out) # bos))"
    using e t by simp
  ultimately show ?case by blast
qed

lemma ip_block_outcomes:
  "ip_block s b out \<Longrightarrow> read_outcomes (filter (\<lambda>e. \<not> superseded e) b) = [out]"
  by (induction s b out rule: ip_block.induct) (auto elim: is_TypeError.elims)

lemma blocks_outcomes:
  "list_all2 (\<lambda>s (b, out). ip_block s b out) specs bos \<Longrightarrow>
     read_outcomes (filter (\<lambda>e. \<not> superseded e) (concat (map fst bos))) = map snd bos"
  by (induction specs bos rule: list_all2_induct)
     (auto simp: read_outcomes_append ip_block_outcomes)

lemma read_outcomes_calls:
  "length outs = length specs \<Longrightarrow>
     read_outcomes (map (\<lambda>(s, out). ClientRead (address s) (count s) True out) (zip specs outs)) = outs"
  by (induction specs outs rule: list_induct2') auto

lemma read_requests_calls:
  "length outs = length specs \<Longrightarrow>
     read_requests (map (\<lambda>(s, out). ClientRead (address s) (count s) True out) (zip specs outs))
       = map (\<lambda>s. (address s, count s, True)) specs"
  by (induction specs outs rule: list_induct2') auto

lemma count_by_map:
  "map f xs = map g ys \<Longrightarrow> length (filter f xs) = length (filter g ys)"
proof -
  assume eq: "map f xs = map g ys"
  have "length (filter f xs) = length (filter id (map f xs))"
    by (simp add: filter_map comp_def)
  also have "\<dots> = length (filter id (map g ys))" by (simp add: eq)
  also have "\<dots> = length (filter g ys)"
    by (simp add: filter_map comp_def)
  finally show ?thesis .
qed

text \<open>
  C1: when every exception a read raises is an \<^verbatim>\<open>Exception\<close> (a protocol exception or a
  transport fault, not an interrupt of the process), \<^verbatim>\<open>read_holding_registers\<close> returns
  one entry per read specification, in the order of the list and with the addresses of
  the list; every specification is asked of the device, whatever the earlier ones gave;
  and an entry is an error entry exactly when its own read failed, so the number of
  error entries is the number of failed reads (one fault among N reads gives N entries
  with one error). This holds for the reader of \<^verbatim>\<open>tcp.py\<close> and for the reader of
  \<^verbatim>\<open>ip.py\<close>, where the read of a specification is the call that was not superseded.
\<close>

theorem read_all_one_result_per_spec:
  assumes "reads_raise_only_Exception w"
  shows "(\<exists>results evs. read_holding_registers w h specs = (Inr results, evs)
            \<and> length results = length specs
            \<and> map fst results = map address specs
            \<and> read_requests evs = map (\<lambda>s. (address s, count s, True)) specs
            \<and> map is_err results = map failed (read_outcomes evs)
            \<and> length (filter is_err results) = length (filter failed (read_outcomes evs)))
       \<and> (\<exists>results evs. read_holding_registers_ip w h specs = (Inr results, evs)
            \<and> length results = length specs
            \<and> map fst results = map address specs
            \<and> length (read_outcomes (filter (\<lambda>e. \<not> superseded e) evs)) = length specs
            \<and> map is_err results = map failed (read_outcomes (filter (\<lambda>e. \<not> superseded e) evs))
            \<and> length (filter is_err results)
                = length (filter failed (read_outcomes (filter (\<lambda>e. \<not> superseded e) evs))))"
proof
  from reader_tcp_shape[OF assms, where specs=specs and h=h] obtain results outs where
    n: "length outs = length specs"
    and r: "read_holding_registers w h specs =
         (Inr results, map (\<lambda>(s, out). ClientRead (address s) (count s) True out) (zip specs outs))"
    and l: "length results = length specs" and m: "map fst results = map address specs"
    and e: "map is_err results = map failed outs"
    by blast
  let ?evs = "map (\<lambda>(s, out). ClientRead (address s) (count s) True out) (zip specs outs)"
  have o: "read_outcomes ?evs = outs" using n by (rule read_outcomes_calls)
  have q: "read_requests ?evs = map (\<lambda>s. (address s, count s, True)) specs"
    using n by (rule read_requests_calls)
  have "length (filter is_err results) = length (filter failed outs)"
    using e by (rule count_by_map)
  with r l m e o q
  show "\<exists>results evs. read_holding_registers w h specs = (Inr results, evs)
            \<and> length results = length specs
            \<and> map fst results = map address specs
            \<and> read_requests evs = map (\<lambda>s. (address s, count s, True)) specs
            \<and> map is_err results = map failed (read_outcomes evs)
            \<and> length (filter is_err results) = length (filter failed (read_outcomes evs))"
    by simp
next
  from reader_ip_shape[OF assms, where specs=specs and h=h] obtain results bos where
    r: "read_holding_registers_ip w h specs = (Inr results, concat (map fst bos))"
    and a: "list_all2 (\<lambda>s (b, out). ip_block s b out) specs bos"
    and l: "length results = length specs" and m: "map fst results = map address specs"
    and e: "map is_err results = map failed (map snd bos)"
    by blast
  have o: "read_outcomes (filter (\<lambda>e. \<not> superseded e) (concat (map fst bos))) = map snd bos"
    using a by (rule blocks_outcomes)
  have n: "length bos = length specs" using a by (simp add: list_all2_lengthD)
  have "length (filter is_err results) = length (filter failed (map snd bos))"
    using e by (rule count_by_map)
  with r l m e o n
  show "\<exists>results evs. read_holding_registers_ip w h specs = (Inr results, evs)
            \<and> length results = length specs
            \<and> map fst results = map address specs
            \<and> length (read_outcomes (filter (\<lambda>e. \<not> superseded e) evs)) = length specs
            \<and> map is_err results = map failed (read_outcomes (filter (\<lambda>e. \<not> superseded e) evs))
            \<and> length (filter is_err results)
                = length (filter failed (read_outcomes (filter (\<lambda>e. \<not> superseded e) evs)))"
    by simp
qed

lemma world_one_fault_reads: "reads_raise_only_Exception world_one_fault"
  by (simp add: reads_raise_only_Exception_def world_one_fault_def)

lemma one_fault_tcp:
  "read_holding_registers world_one_fault [] three_reads =
     (Inr [(0, Some [7, 42], None),
           (1, None, Some ''Error: Exception Response(131, 3, IllegalAddress)''),
           (4, Some [7, 42], None)],
      [ClientRead 0 2 True (Returns (ReadRegistersResponse [7, 42])),
       ClientRead 1 2 True (Returns (ErrorResponse (Some 2) ''Exception Response(131, 3, IllegalAddress)'')),
       ClientRead 4 2 True (Returns (ReadRegistersResponse [7, 42]))])"
  by (simp add: world_one_fault_def three_reads_def Let_def)

lemma one_fault_ip:
  "read_holding_registers_ip world_one_fault [] three_reads =
     (Inr [(0, Some [7, 42], None),
           (1, None, Some ''Modbus Exception Code: 2''),
           (4, Some [7, 42], None)],
      [ClientRead 0 2 True (Returns (ReadRegistersResponse [7, 42])),
       ClientRead 1 2 True (Returns (ErrorResponse (Some 2) ''Exception Response(131, 3, IllegalAddress)'')),
       ClientRead 4 2 True (Returns (ReadRegistersResponse [7, 42]))])"
  by code_simp

theorem read_all_one_result_per_spec_witness:
  "reads_raise_only_Exception world_one_fault
   \<and> (\<exists>results evs. read_holding_registers world_one_fault [] three_reads = (Inr results, evs)
         \<and> length results = 3 \<and> map fst results = [0, 1, 4]
         \<and> length (filter failed (read_outcomes evs)) = 1
         \<and> length (filter is_err results) = 1)
   \<and> (\<exists>results evs. read_holding_registers_ip world_one_fault [] three_reads = (Inr results, evs)
         \<and> length results = 3 \<and> map fst results = [0, 1, 4]
         \<and> length (filter failed (read_outcomes (filter (\<lambda>e. \<not> superseded e) evs))) = 1
         \<and> length (filter is_err results) = 1)"
  using read_all_one_result_per_spec[OF world_one_fault_reads, where h="[]" and specs=three_reads]
        world_one_fault_reads
  by (simp add: one_fault_tcp one_fault_ip)









lemma ip_fallback_calls:
  "read_holding_registers_ip world_unit_rejected [] [\<lparr>address = 0, count = 2\<rparr>] =
     (Inr [(0, Some [7, 42], None)],
      [ClientRead 0 2 True (Raises (TypeError ''unexpected keyword argument unit'')),
       ClientRead 0 2 False (Returns (ReadRegistersResponse [7, 42]))])"
  by code_simp


section \<open>The sweep\<close>

lemma reader_events_are_reads: "list_all is_read (snd (read_holding_registers w h specs))"
proof (induction specs arbitrary: h)
  case Nil
  show ?case by simp
next
  case (Cons item rest)
  let ?ev = "ClientRead (address item) (count item) True (read_out w h (address item) (count item) True)"
  from Cons.IH[of "h @ [?ev]"] show ?case
    by (auto simp: Let_def split: sum.splits prod.splits)
qed

lemma classify_ok:
  "classify addr out = Inr r \<Longrightarrow>
     (case out of Returns (ReadRegistersResponse regs) \<Rightarrow> r = (addr, Some regs, None)
      | _ \<Rightarrow> is_err r)"
  by (cases "(addr, out)" rule: classify.cases) (auto split: if_splits)

lemma reader_ok_results:
  "read_holding_registers w h specs = (Inr results, evs) \<Longrightarrow>
     filter (\<lambda>r. \<not> is_err r) results = map (\<lambda>(a, regs). (a, Some regs, None)) (ok_reads evs)"
proof (induction specs arbitrary: h results evs)
  case Nil
  then show ?case by simp
next
  case (Cons item rest)
  let ?out = "read_out w h (address item) (count item) True"
  let ?ev = "ClientRead (address item) (count item) True ?out"
  from Cons.prems obtain r rs evs' where
    c: "classify (address item) ?out = Inr r"
    and rr: "read_holding_registers w (h @ [?ev]) rest = (Inr rs, evs')"
    and res: "results = r # rs" and ev: "evs = ?ev # evs'"
    by (auto simp: Let_def split: sum.splits prod.splits)
  from Cons.IH[OF rr] have ih: "filter (\<lambda>r. \<not> is_err r) rs = map (\<lambda>(a, regs). (a, Some regs, None)) (ok_reads evs')" .
  from classify_ok[OF c] show ?case
    unfolding res ev using ih
    by (cases ?out rule: failed.cases) auto
qed

lemma publish_to_aws_Exception:
  assumes "publishes_raise_only_Exception w"
  shows "\<exists>out. publish_to_aws w h tpc nm a v =
           (None, [MqttPublish tpc (payload (clock w h) nm a v) 0 out])"
proof (cases "publish_out w h tpc (payload (clock w h) nm a v)")
  case (Returns b)
  then show ?thesis by (simp add: publish_to_aws_def Let_def)
next
  case (Raises e)
  with assms have "is_Exception e"
    unfolding publishes_raise_only_Exception_def by blast
  with Raises show ?thesis by (simp add: publish_to_aws_def Let_def)
qed

lemma publish_results_shape:
  assumes "publishes_raise_only_Exception w"
  shows "\<exists>pevs. publish_results w h tpc nm results = (None, pevs)
     \<and> list_all2 (\<lambda>ev (a, v, e). \<exists>ts out. ev = MqttPublish tpc (payload ts nm a v) 0 out)
          pevs (filter (\<lambda>r. \<not> is_err r) results)"
proof (induction results arbitrary: h)
  case Nil
  show ?case by simp
next
  case (Cons r rest)
  obtain a v e where r: "r = (a, v, e)" by (cases r)
  show ?case
  proof (cases "truthy e")
    case True
    with Cons.IH[of h] r show ?thesis by simp
  next
    case False
    from publish_to_aws_Exception[OF assms, of h tpc nm a v] obtain out where
      p: "publish_to_aws w h tpc nm a v = (None, [MqttPublish tpc (payload (clock w h) nm a v) 0 out])"
      by blast
    from Cons.IH[of "h @ [MqttPublish tpc (payload (clock w h) nm a v) 0 out]"]
    obtain pevs where
      "publish_results w (h @ [MqttPublish tpc (payload (clock w h) nm a v) 0 out]) tpc nm rest = (None, pevs)"
      "list_all2 (\<lambda>ev (a, v, e). \<exists>ts out. ev = MqttPublish tpc (payload ts nm a v) 0 out)
          pevs (filter (\<lambda>r. \<not> is_err r) rest)"
      by blast
    with False r p show ?thesis by auto
  qed
qed


lemma reader_length:
  "reads_raise_only_Exception w \<Longrightarrow> \<exists>results evs. read_holding_registers w h specs = (Inr results, evs)
      \<and> length evs = length specs"
proof (induction specs arbitrary: h)
  case Nil
  show ?case by simp
next
  case (Cons item rest)
  let ?out = "read_out w h (address item) (count item) True"
  let ?ev = "ClientRead (address item) (count item) True ?out"
  from Cons.prems have "\<And>e. ?out = Raises e \<Longrightarrow> is_Exception e"
    unfolding reads_raise_only_Exception_def by blast
  then obtain r where c: "classify (address item) ?out = Inr r"
    by (cases "(address item, ?out)" rule: classify.cases) auto
  from Cons.IH[OF Cons.prems, of "h @ [?ev]"] obtain results evs where
    "read_holding_registers w (h @ [?ev]) rest = (Inr results, evs)" "length evs = length rest"
    by blast
  with c show ?case by (simp add: Let_def)
qed

lemma publishes_of_shape:
  "list_all2 (\<lambda>ev (a, v, e). \<exists>ts out. ev = MqttPublish tpc (payload ts nm a v) 0 out) pevs xs
     \<Longrightarrow> list_all is_publish pevs"
  by (induction pevs xs rule: list_all2_induct) auto

lemma poll_plc_block:
  assumes R: "reads_raise_only_Exception w" and P: "publishes_raise_only_Exception w"
    and C: "connect_out w h (ip p) (port p) = Returns b"
  shows "\<exists>blk. poll_plc w tpc h p = (None, blk) \<and> device_block tpc p blk
           \<and> hd blk = ClientConnect (ip p) (port p) (Returns b)"
proof (cases b)
  case False
  with C have "poll_plc w tpc h p =
      (None, ClientConnect (ip p) (port p) (Returns b) # [] @ [] @ [ClientClose (ip p) (port p)])"
    by (simp add: poll_plc_def Let_def)
  moreover have "device_block tpc p
      (ClientConnect (ip p) (port p) (Returns b) # [] @ [] @ [ClientClose (ip p) (port p)])"
    unfolding device_block_def using False
    by (intro exI[of _ b] exI[of _ "[]"]) simp
  ultimately show ?thesis by simp
next
  case True
  let ?ev = "ClientConnect (ip p) (port p) (Returns b)"
  from reader_length[OF R, of "h @ [?ev]" "reads p"] obtain results revs where
    rd: "read_holding_registers w (h @ [?ev]) (reads p) = (Inr results, revs)"
    and len: "length revs = length (reads p)"
    by blast
  from reader_events_are_reads[of w "h @ [?ev]" "reads p"] rd
  have allr: "list_all is_read revs" by simp
  from publish_results_shape[OF P, of "h @ ?ev # revs" tpc "name p" results] obtain pevs where
    pb: "publish_results w (h @ ?ev # revs) tpc (name p) results = (None, pevs)"
    and sh: "list_all2 (\<lambda>ev (a, v, e). \<exists>ts out. ev = MqttPublish tpc (payload ts (name p) a v) 0 out)
          pevs (filter (\<lambda>r. \<not> is_err r) results)"
    by blast
  have allp: "list_all is_publish pevs" using sh by (rule publishes_of_shape)
  from sh have sh': "list_all2 (\<lambda>ev (a, regs). \<exists>ts out. ev = MqttPublish tpc (payload ts (name p) a (Some regs)) 0 out)
             pevs (ok_reads revs)"
    unfolding reader_ok_results[OF rd] list_all2_map2
    by (simp add: case_prod_unfold)
  have "poll_plc w tpc h p = (None, ?ev # revs @ pevs @ [ClientClose (ip p) (port p)])"
    using C True rd pb by (simp add: poll_plc_def Let_def)
  moreover have "device_block tpc p (?ev # revs @ pevs @ [ClientClose (ip p) (port p)])"
    unfolding device_block_def using True allr allp len sh'
    by (intro exI[of _ b] exI[of _ revs] exI[of _ pevs]) simp
  ultimately show ?thesis by simp
qed

lemma poll_plcs_blocks:
  assumes C: "connect_returns w" and R: "reads_raise_only_Exception w"
    and P: "publishes_raise_only_Exception w"
  shows "\<exists>blocks. poll_plcs w tpc h plcs = (None, concat blocks)
           \<and> list_all2 (device_block tpc) plcs blocks"
proof (induction plcs arbitrary: h)
  case Nil
  show ?case by simp
next
  case (Cons p rest)
  from C obtain b where "connect_out w h (ip p) (port p) = Returns b"
    unfolding connect_returns_def by blast
  from poll_plc_block[OF R P this, of tpc] obtain blk where
    b: "poll_plc w tpc h p = (None, blk)" and d: "device_block tpc p blk"
    by blast
  from Cons.IH[of "h @ blk"] obtain blocks where
    r: "poll_plcs w tpc (h @ blk) rest = (None, concat blocks)"
    and a: "list_all2 (device_block tpc) rest blocks"
    by blast
  have "poll_plcs w tpc h (p # rest) = (None, concat (blk # blocks))"
    using b r by simp
  moreover have "list_all2 (device_block tpc) (p # rest) (blk # blocks)"
    using d a by simp
  ultimately show ?case by blast
qed

lemma published_append: "published (xs @ ys) = published xs @ published ys"
  by (induction xs rule: published.induct) auto

lemma ok_reads_append: "ok_reads (xs @ ys) = ok_reads xs @ ok_reads ys"
  by (induction xs rule: ok_reads.induct) auto

lemma connects_append: "connects (xs @ ys) = connects xs @ connects ys"
  by (induction xs rule: connects.induct) auto

lemma reads_no_publish: "list_all is_read xs \<Longrightarrow> published xs = []"
  by (induction xs rule: published.induct) auto

lemma reads_no_connect: "list_all is_read xs \<Longrightarrow> connects xs = []"
  by (induction xs rule: connects.induct) auto

lemma publishes_no_read: "list_all is_publish xs \<Longrightarrow> ok_reads xs = []"
  by (induction xs rule: ok_reads.induct) auto

lemma publishes_no_connect: "list_all is_publish xs \<Longrightarrow> connects xs = []"
  by (induction xs rule: connects.induct) auto

lemma telemetry_due_reads:
  "list_all is_read xs \<Longrightarrow>
     telemetry_due cur ps (xs @ ys) = map (\<lambda>(a, regs). (cur, a, regs)) (ok_reads xs) @ telemetry_due cur ps ys"
  by (induction xs rule: ok_reads.induct) auto

lemma telemetry_due_publishes:
  "list_all is_publish xs \<Longrightarrow> telemetry_due cur ps (xs @ ys) = telemetry_due cur ps ys"
  by (induction xs rule: published.induct) auto

lemma sans_timestamp_payload:
  "sans_timestamp (payload ts nm a (Some regs)) = message_due (nm, a, regs)"
  by (simp add: payload_def message_due_def)

lemma published_messages:
  "list_all2 (\<lambda>ev (a, regs). \<exists>ts out. ev = MqttPublish tpc (payload ts nm a (Some regs)) 0 out) pevs xs
     \<Longrightarrow> map sans_timestamp (published pevs) = map (\<lambda>(a, regs). message_due (nm, a, regs)) xs"
  by (induction pevs xs rule: list_all2_induct) (auto simp: sans_timestamp_payload)

lemma published_payloads:
  "list_all2 (\<lambda>ev (a, regs). \<exists>ts out. ev = MqttPublish tpc (payload ts nm a (Some regs)) 0 out) pevs xs
     \<Longrightarrow> list_all2 (\<lambda>j (a, regs). \<exists>ts. j = payload ts nm a (Some regs)) (published pevs) xs"
  by (induction pevs xs rule: list_all2_induct) auto

lemma device_block_connects:
  "device_block tpc p blk \<Longrightarrow> connects blk = [(ip p, port p)]"
  by (auto simp: device_block_def connects_append reads_no_connect publishes_no_connect)

lemma device_block_published:
  assumes "device_block tpc p blk"
  shows "map sans_timestamp (published blk) = map (\<lambda>(a, regs). message_due (name p, a, regs)) (ok_reads blk)"
    and "list_all2 (\<lambda>j (a, regs). \<exists>ts. j = payload ts (name p) a (Some regs)) (published blk) (ok_reads blk)"
    and "telemetry_due cur (p # ps) (blk @ rest)
           = map (\<lambda>(a, regs). (name p, a, regs)) (ok_reads blk) @ telemetry_due (name p) ps rest"
proof -
  from assms obtain b revs pevs where
    blk: "blk = ClientConnect (ip p) (port p) (Returns b) # revs @ pevs @ [ClientClose (ip p) (port p)]"
    and r: "list_all is_read revs" and q: "list_all is_publish pevs"
    and sh: "list_all2 (\<lambda>ev (a, regs). \<exists>ts out. ev = MqttPublish tpc (payload ts (name p) a (Some regs)) 0 out)
             pevs (ok_reads revs)"
    unfolding device_block_def by blast
  have pb: "published blk = published pevs"
    by (simp add: blk published_append reads_no_publish[OF r])
  have ok: "ok_reads blk = ok_reads revs"
    by (simp add: blk ok_reads_append publishes_no_read[OF q])
  show "map sans_timestamp (published blk) = map (\<lambda>(a, regs). message_due (name p, a, regs)) (ok_reads blk)"
    unfolding pb ok using sh by (rule published_messages)
  show "list_all2 (\<lambda>j (a, regs). \<exists>ts. j = payload ts (name p) a (Some regs)) (published blk) (ok_reads blk)"
    unfolding pb ok using sh by (rule published_payloads)
  have "telemetry_due cur (p # ps) (blk @ rest)
      = telemetry_due (name p) ps (revs @ pevs @ ClientClose (ip p) (port p) # rest)"
    by (simp add: blk)
  also have "\<dots> = map (\<lambda>(a, regs). (name p, a, regs)) (ok_reads revs)
        @ telemetry_due (name p) ps (pevs @ ClientClose (ip p) (port p) # rest)"
    using r by (rule telemetry_due_reads)
  also have "telemetry_due (name p) ps (pevs @ ClientClose (ip p) (port p) # rest)
        = telemetry_due (name p) ps (ClientClose (ip p) (port p) # rest)"
    using q by (rule telemetry_due_publishes)
  finally show "telemetry_due cur (p # ps) (blk @ rest)
           = map (\<lambda>(a, regs). (name p, a, regs)) (ok_reads blk) @ telemetry_due (name p) ps rest"
    by (simp add: ok)
qed

lemma blocks_connects:
  "list_all2 (device_block tpc) plcs blocks \<Longrightarrow>
     connects (concat blocks) = map (\<lambda>p. (ip p, port p)) plcs"
  by (induction plcs blocks rule: list_all2_induct)
     (auto simp: connects_append device_block_connects)

lemma blocks_published:
  "list_all2 (device_block tpc) plcs blocks \<Longrightarrow>
     map sans_timestamp (published (concat blocks)) = map message_due (telemetry_due cur plcs (concat blocks))"
proof (induction plcs blocks arbitrary: cur rule: list_all2_induct)
  case Nil
  show ?case by simp
next
  case (Cons p plcs blk blocks)
  have "map sans_timestamp (published (concat (blk # blocks)))
      = map sans_timestamp (published blk) @ map sans_timestamp (published (concat blocks))"
    by (simp add: published_append)
  also have "\<dots> = map message_due (map (\<lambda>(a, regs). (name p, a, regs)) (ok_reads blk))
        @ map message_due (telemetry_due (name p) plcs (concat blocks))"
    using device_block_published(1)[OF Cons.hyps(1)] Cons.IH[of "name p"]
    by (simp add: case_prod_unfold comp_def)
  also have "\<dots> = map message_due (telemetry_due cur (p # plcs) (concat (blk # blocks)))"
    using device_block_published(3)[OF Cons.hyps(1), of cur plcs "concat blocks"]
    by simp
  finally show ?case .
qed

lemma blocks_counts:
  "list_all2 (device_block tpc) plcs blocks \<Longrightarrow>
     length (published (concat blocks)) = length (ok_reads (concat blocks))"
proof (induction plcs blocks rule: list_all2_induct)
  case Nil
  show ?case by simp
next
  case (Cons p plcs blk blocks)
  from device_block_published(2)[OF Cons.hyps(1)]
  have "length (published blk) = length (ok_reads blk)" by (rule list_all2_lengthD)
  with Cons.IH show ?case by (simp add: published_append ok_reads_append)
qed

lemma world_one_fault_ok:
  "connect_returns world_one_fault" "publishes_raise_only_Exception world_one_fault"
  "sleep_returns world_one_fault"
  by (auto simp: connect_returns_def publishes_raise_only_Exception_def sleep_returns_def
        world_one_fault_def)

lemma world_B_down_ok:
  "connect_returns world_B_down" "reads_raise_only_Exception world_B_down"
  "publishes_raise_only_Exception world_B_down" "sleep_returns world_B_down"
  by (auto simp: connect_returns_def reads_raise_only_Exception_def
        publishes_raise_only_Exception_def sleep_returns_def world_B_down_def)

text \<open>
  C3: in a sweep of \<^verbatim>\<open>tcp.py\<close> that nothing interrupts (every connect returns, reads and
  publishes raise only \<^verbatim>\<open>Exception\<close>s), the payloads handed to the channel are, in order
  and leaving the time stamps aside, exactly the messages due for the successful reads
  of the sweep, each with the name of its device, in the order the reads were made
  (device by device, address by address): one send attempt per successful read, none
  for a failed one, nothing reordered or batched.
\<close>

theorem one_publish_per_ok_read_in_order:
  assumes "connect_returns w" and "reads_raise_only_Exception w"
    and "publishes_raise_only_Exception w"
  shows "\<exists>evs. poll_plcs w tpc h plcs = (None, evs)
     \<and> map sans_timestamp (published evs) = map message_due (telemetry_due [] plcs evs)
     \<and> length (published evs) = length (ok_reads evs)"
proof -
  from poll_plcs_blocks[OF assms, of tpc h plcs] obtain blocks where
    r: "poll_plcs w tpc h plcs = (None, concat blocks)"
    and a: "list_all2 (device_block tpc) plcs blocks"
    by blast
  from blocks_published[OF a, of "[]"] blocks_counts[OF a] r show ?thesis by simp
qed

theorem one_publish_per_ok_read_in_order_witness:
  "connect_returns world_one_fault \<and> reads_raise_only_Exception world_one_fault
   \<and> publishes_raise_only_Exception world_one_fault
   \<and> (\<exists>evs. poll_plcs world_one_fault ''telemetry'' [] [plc_C, plc_A] = (None, evs)
         \<and> map sans_timestamp (published evs) = map message_due (telemetry_due [] [plc_C, plc_A] evs)
         \<and> length (published evs) = length (ok_reads evs))
   \<and> map sans_timestamp (published (snd (poll_plcs world_one_fault ''telemetry'' [] [plc_C, plc_A])))
       = [message_due (''C'', 0, [7, 42]), message_due (''C'', 4, [7, 42]), message_due (''A'', 0, [7, 42])]"
proof -
  have e: "map sans_timestamp (published (snd (poll_plcs world_one_fault ''telemetry'' [] [plc_C, plc_A])))
       = [message_due (''C'', 0, [7, 42]), message_due (''C'', 4, [7, 42]), message_due (''A'', 0, [7, 42])]"
    by code_simp
  show ?thesis
    using one_publish_per_ok_read_in_order[OF world_one_fault_ok(1) world_one_fault_reads
            world_one_fault_ok(2), of "''telemetry''" "[]" "[plc_C, plc_A]"]
          world_one_fault_ok world_one_fault_reads e
    by blast
qed

text \<open>
  C9: when a device is connected and its reads and publishes raise only \<^verbatim>\<open>Exception\<close>s,
  the payloads published for it are, in order, one per successful read, and each is the
  JSON object with exactly the four fields \<^verbatim>\<open>timestamp\<close> (an integer), \<^verbatim>\<open>plc_name\<close> (the
  name of the device), \<^verbatim>\<open>register_address\<close> (the address of the read) and \<^verbatim>\<open>value\<close> (the
  registers the read returned, in order).
\<close>

theorem one_message_per_ok_read:
  assumes "reads_raise_only_Exception w" and "publishes_raise_only_Exception w"
    and "connect_out w h (ip p) (port p) = Returns True"
  shows "\<exists>evs. poll_plc w tpc h p = (None, evs)
     \<and> list_all2 (\<lambda>j (a, regs). \<exists>ts. j =
           JObj [(''timestamp'', JInt ts), (''plc_name'', JStr (name p)),
                 (''register_address'', JInt a), (''value'', JList (map JInt regs))])
         (published evs) (ok_reads evs)"
proof -
  from poll_plc_block[OF assms, of tpc] obtain blk where
    b: "poll_plc w tpc h p = (None, blk)" and d: "device_block tpc p blk"
    by blast
  from device_block_published(2)[OF d] b show ?thesis
    by (simp add: payload_def)
qed

theorem one_message_per_ok_read_witness:
  "reads_raise_only_Exception world_B_down \<and> publishes_raise_only_Exception world_B_down
   \<and> connect_out world_B_down [] (ip plc_A) (port plc_A) = Returns True
   \<and> (\<exists>evs. poll_plc world_B_down ''telemetry'' [] plc_A = (None, evs)
        \<and> list_all2 (\<lambda>j (a, regs). \<exists>ts. j =
              JObj [(''timestamp'', JInt ts), (''plc_name'', JStr (name plc_A)),
                    (''register_address'', JInt a), (''value'', JList (map JInt regs))])
            (published evs) (ok_reads evs))
   \<and> poll_plc world_B_down ''telemetry'' [] plc_A =
       (None,
        [ClientConnect ''10.0.0.5'' 502 (Returns True),
         ClientRead 0 2 True (Returns (ReadRegistersResponse [7, 42])),
         MqttPublish ''telemetry''
           (JObj [(''timestamp'', JInt 1700000000002), (''plc_name'', JStr ''A''),
                  (''register_address'', JInt 0), (''value'', JList [JInt 7, JInt 42])])
           0 (Returns True),
         ClientClose ''10.0.0.5'' 502])"
proof -
  have c: "connect_out world_B_down [] (ip plc_A) (port plc_A) = Returns True"
    by (simp add: world_B_down_def plc_A_def)
  have e: "poll_plc world_B_down ''telemetry'' [] plc_A =
       (None,
        [ClientConnect ''10.0.0.5'' 502 (Returns True),
         ClientRead 0 2 True (Returns (ReadRegistersResponse [7, 42])),
         MqttPublish ''telemetry''
           (JObj [(''timestamp'', JInt 1700000000002), (''plc_name'', JStr ''A''),
                  (''register_address'', JInt 0), (''value'', JList [JInt 7, JInt 42])])
           0 (Returns True),
         ClientClose ''10.0.0.5'' 502])"
    by code_simp
  show ?thesis
    using one_message_per_ok_read[OF world_B_down_ok(2) world_B_down_ok(3) c, of "''telemetry''"]
          world_B_down_ok c e
    by blast
qed

section \<open>Unreachable devices and devices without reads\<close>

lemma read_call_ip_reads: "list_all is_read (snd (read_call_ip w h item))"
  by (simp add: read_call_ip_def Let_def split: outcome.splits exn.splits)

lemma reader_ip_events_are_reads: "list_all is_read (snd (read_holding_registers_ip w h specs))"
proof (induction specs arbitrary: h)
  case Nil
  show ?case by simp
next
  case (Cons item rest)
  obtain out b where rc: "read_call_ip w h item = (out, b)" by (cases "read_call_ip w h item")
  from read_call_ip_reads[of w h item] rc have b: "list_all is_read b" by simp
  from Cons.IH[of "h @ b"] b rc show ?case
    by (auto split: sum.splits prod.splits)
qed

lemma connect_and_read_block:
  assumes R: "reads_raise_only_Exception w"
    and C: "connect_out w h (ip p) (port p) = Returns b"
  shows "\<exists>revs. connect_and_read w h p =
           (None, ClientConnect (ip p) (port p) (Returns b) # revs @ [ClientClose (ip p) (port p)])
         \<and> list_all is_read revs \<and> (\<not> b \<longrightarrow> revs = [])"
proof (cases b)
  case False
  with C show ?thesis by (simp add: connect_and_read_def Let_def)
next
  case True
  let ?ev = "ClientConnect (ip p) (port p) (Returns b)"
  from reader_ip_shape[OF R, where specs="reads p" and h="h @ [?ev]"] obtain results revs where
    rd: "read_holding_registers_ip w (h @ [?ev]) (reads p) = (Inr results, revs)"
    by blast
  from reader_ip_events_are_reads[of w "h @ [?ev]" "reads p"] rd
  have "list_all is_read revs" by simp
  with C True rd show ?thesis by (simp add: connect_and_read_def Let_def)
qed

lemma run_devices_connects:
  assumes C: "connect_returns w" and R: "reads_raise_only_Exception w" and S: "sleep_returns w"
  shows "\<exists>evs. run_devices w h devs = (None, evs) \<and> connects evs = map (\<lambda>p. (ip p, port p)) devs"
proof (induction devs arbitrary: h)
  case Nil
  show ?case by simp
next
  case (Cons p rest)
  from C obtain b where c: "connect_out w h (ip p) (port p) = Returns b"
    unfolding connect_returns_def by blast
  from connect_and_read_block[OF R c] obtain revs where
    d: "connect_and_read w h p =
           (None, ClientConnect (ip p) (port p) (Returns b) # revs @ [ClientClose (ip p) (port p)])"
    and r: "list_all is_read revs"
    by blast
  let ?blk = "ClientConnect (ip p) (port p) (Returns b) # revs @ [ClientClose (ip p) (port p)]"
  from S have s: "sleep_out w (h @ ?blk) 1 = Returns ()"
    unfolding sleep_returns_def by blast
  from Cons.IH[of "h @ ?blk @ [Sleep 1 (Returns ())]"] obtain evs where
    i: "run_devices w (h @ ?blk @ [Sleep 1 (Returns ())]) rest = (None, evs)"
    and k: "connects evs = map (\<lambda>p. (ip p, port p)) rest"
    by blast
  have "run_devices w h (p # rest) = (None, ?blk @ Sleep 1 (Returns ()) # evs)"
    using d s i by (simp add: Let_def)
  moreover have "connects (?blk @ Sleep 1 (Returns ()) # evs) = map (\<lambda>p. (ip p, port p)) (p # rest)"
    using k r by (simp add: connects_append reads_no_connect)
  ultimately show ?case by simp
qed

text \<open>
  A device whose connect returns false gets one connect call and the close of its
  client, no read and no publish, and the loop goes on, in \<^verbatim>\<open>tcp.py\<close> and in \<^verbatim>\<open>ip.py\<close>;
  and a sweep in which every connect returns and that nothing interrupts ends normally
  with exactly one connect per device of the list, in the order of the list, whichever
  of the devices could be reached.
\<close>

lemma unreachable_device_is_skipped:
  "(connect_out w h (ip p) (port p) = Returns False \<longrightarrow>
      poll_plc w tpc h p =
        (None, [ClientConnect (ip p) (port p) (Returns False), ClientClose (ip p) (port p)])
      \<and> connect_and_read w h p =
        (None, [ClientConnect (ip p) (port p) (Returns False), ClientClose (ip p) (port p)]))
   \<and> (connect_returns w \<and> reads_raise_only_Exception w \<and> publishes_raise_only_Exception w \<longrightarrow>
        (\<exists>evs. poll_plcs w tpc h plcs = (None, evs)
           \<and> connects evs = map (\<lambda>p. (ip p, port p)) plcs))
   \<and> (connect_returns w \<and> reads_raise_only_Exception w \<and> sleep_returns w \<longrightarrow>
        (\<exists>evs. run_devices w h plcs = (None, evs)
           \<and> connects evs = map (\<lambda>p. (ip p, port p)) plcs))"
proof (intro conjI impI)
  assume "connect_out w h (ip p) (port p) = Returns False"
  then show "poll_plc w tpc h p =
        (None, [ClientConnect (ip p) (port p) (Returns False), ClientClose (ip p) (port p)])"
    and "connect_and_read w h p =
        (None, [ClientConnect (ip p) (port p) (Returns False), ClientClose (ip p) (port p)])"
    by (simp_all add: poll_plc_def connect_and_read_def Let_def)
next
  assume a: "connect_returns w \<and> reads_raise_only_Exception w \<and> publishes_raise_only_Exception w"
  then have "connect_returns w" "reads_raise_only_Exception w" "publishes_raise_only_Exception w"
    by simp_all
  from poll_plcs_blocks[OF this, of tpc h plcs] obtain blocks where
    r: "poll_plcs w tpc h plcs = (None, concat blocks)"
    and b: "list_all2 (device_block tpc) plcs blocks"
    by blast
  from blocks_connects[OF b] r
  show "\<exists>evs. poll_plcs w tpc h plcs = (None, evs) \<and> connects evs = map (\<lambda>p. (ip p, port p)) plcs"
    by simp
next
  assume a: "connect_returns w \<and> reads_raise_only_Exception w \<and> sleep_returns w"
  then have "connect_returns w" "reads_raise_only_Exception w" "sleep_returns w"
    by simp_all
  from run_devices_connects[OF this]
  show "\<exists>evs. run_devices w h plcs = (None, evs) \<and> connects evs = map (\<lambda>p. (ip p, port p)) plcs" .
qed

lemma unreachable_device_is_skipped_example:
  "connect_out world_B_down [] (ip plc_B) (port plc_B) = Returns False
   \<and> poll_plc world_B_down ''telemetry'' [] plc_B =
        (None, [ClientConnect ''10.0.0.6'' 502 (Returns False), ClientClose ''10.0.0.6'' 502])
   \<and> connect_and_read world_B_down [] plc_B =
        (None, [ClientConnect ''10.0.0.6'' 502 (Returns False), ClientClose ''10.0.0.6'' 502])
   \<and> connect_returns world_B_down \<and> reads_raise_only_Exception world_B_down
   \<and> publishes_raise_only_Exception world_B_down \<and> sleep_returns world_B_down
   \<and> (\<exists>evs. poll_plcs world_B_down ''telemetry'' [] [plc_B, plc_A, plc_B, plc_C] = (None, evs)
         \<and> connects evs = [(''10.0.0.6'', 502), (''10.0.0.5'', 502), (''10.0.0.6'', 502), (''10.0.0.7'', 502)])
   \<and> (\<exists>evs. run_devices world_B_down [] [plc_B, plc_A, plc_B, plc_C] = (None, evs)
         \<and> connects evs = [(''10.0.0.6'', 502), (''10.0.0.5'', 502), (''10.0.0.6'', 502), (''10.0.0.7'', 502)])"
proof -
  have c: "connect_out world_B_down [] (ip plc_B) (port plc_B) = Returns False"
    by (simp add: world_B_down_def plc_B_def)
  have m: "map (\<lambda>p. (ip p, port p)) [plc_B, plc_A, plc_B, plc_C]
      = [(''10.0.0.6'', 502), (''10.0.0.5'', 502), (''10.0.0.6'', 502), (''10.0.0.7'', 502)]"
    by (simp add: plc_A_def plc_B_def plc_C_def)
  have i: "ip plc_B = ''10.0.0.6''" "port plc_B = 502" by (simp_all add: plc_B_def)
  show ?thesis
    using unreachable_device_is_skipped[where w=world_B_down and h="[]" and p=plc_B
            and tpc="''telemetry''" and plcs="[plc_B, plc_A, plc_B, plc_C]"]
          c world_B_down_ok
    unfolding m i
    by blast
qed



section \<open>What ends the process\<close>

lemma polling_loop_goes_on:
  assumes C: "connect_returns w" and R: "reads_raise_only_Exception w"
    and P: "publishes_raise_only_Exception w" and S: "sleep_only_interrupted w"
  shows "fst (polling_loop w tpc plcs fuel h) = None
       \<or> fst (polling_loop w tpc plcs fuel h) = Some KeyboardInterrupt"
proof (induction fuel arbitrary: h)
  case 0
  show ?case by simp
next
  case (Suc fuel)
  from poll_plcs_blocks[OF C R P, of tpc h plcs] obtain evs where
    s: "poll_plcs w tpc h plcs = (None, evs)"
    by blast
  show ?case
  proof (cases "sleep_out w (h @ evs) 5")
    case (Raises e)
    with S have "e = KeyboardInterrupt" unfolding sleep_only_interrupted_def by blast
    with s Raises show ?thesis by (simp add: Let_def)
  next
    case (Returns u)
    from Suc.IH[of "h @ evs @ [Sleep 5 (Returns u)]"] s Returns show ?thesis
      by (auto simp: Let_def split: prod.splits)
  qed
qed

lemma main_Exit1_iff:
  "fst (main fs w fuel) = Some Exit1 \<longleftrightarrow>
     (\<exists>e. load_all fs = Inl e \<and> config_error e)
     \<or> (\<exists>x e. load_all fs = Inr x \<and> mqtt_connect_out w [] = Raises e \<and> is_Exception e)"
proof (cases "load_all fs")
  case (Inl e)
  then show ?thesis by (simp add: main_def)
next
  case (Inr x)
  obtain aws plcs where x: "x = (aws, plcs)" by (cases x)
  show ?thesis
  proof (cases "mqtt_connect_out w []")
    case (Raises e)
    with Inr x show ?thesis by (simp add: main_def Let_def)
  next
    case (Returns b)
    with Inr x show ?thesis
      by (auto simp: main_def Let_def split: prod.splits option.splits)
  qed
qed

lemma main_polling:
  assumes C: "connect_returns w" and R: "reads_raise_only_Exception w"
    and P: "publishes_raise_only_Exception w" and S: "sleep_only_interrupted w"
    and L: "load_all fs = Inr x" and M: "mqtt_connect_out w [] = Returns b"
  shows "fst (main fs w fuel) = None \<or> fst (main fs w fuel) = Some Exit0"
proof -
  obtain aws plcs where x: "x = (aws, plcs)" by (cases x)
  from polling_loop_goes_on[OF C R P S, of "topic aws" plcs fuel "[MqttConnect (Returns b)]"]
  show ?thesis using L M x
    by (auto simp: main_def Let_def split: prod.splits option.splits)
qed

text \<open>
  C5, as stated, fails: with a complete configuration and every certificate in place,
  a failure of the first MQTT connect ends the process with \<^verbatim>\<open>sys.exit(1)\<close>, and that is
  not a configuration error.
\<close>

theorem mqtt_connect_failure_exits_1:
  "(\<exists>aws plcs. load_all fs_good = Inr (aws, plcs))
   \<and> main fs_good world_mqtt_down 3 =
       (Some Exit1, [MqttConnect (Raises (OtherException ''connect timeout''))])"
proof
  have "load_all fs_good =
     Inr (\<lparr>thing_name = ''bridge'', endpoint = ''broker.example.com'', aws_port = 8883,
           root_ca = ''certs/root.pem'', private_key = ''certs/key.pem'',
           certificate = ''certs/cert.pem'', topic = ''telemetry''\<rparr>, [plc_A])"
    by code_simp
  then show "\<exists>aws plcs. load_all fs_good = Inr (aws, plcs)" by blast
  show "main fs_good world_mqtt_down 3 =
       (Some Exit1, [MqttConnect (Raises (OtherException ''connect timeout''))])"
    by code_simp
qed

text \<open>
  C5, amended: when every connect to a device returns (true or false), reads and
  publishes raise only \<^verbatim>\<open>Exception\<close>s and a sleep is ended by nothing but the operator's
  interrupt, no sweep is left before its end and the polling loop is left only by that
  interrupt; once the configuration is loaded and the MQTT client connected, the
  process is still polling or has ended with status 0. The process ends by
  \<^verbatim>\<open>sys.exit(1)\<close> exactly when loading the configuration raises \<^verbatim>\<open>FileNotFoundError\<close> or
  \<^verbatim>\<open>KeyError\<close>, or when the first MQTT connect raises an \<^verbatim>\<open>Exception\<close>; both happen before
  the first sweep.
\<close>

theorem polling_failures_are_not_fatal:
  "(connect_returns w \<and> reads_raise_only_Exception w \<and> publishes_raise_only_Exception w \<longrightarrow>
       fst (poll_plcs w tpc h plcs) = None)
   \<and> (connect_returns w \<and> reads_raise_only_Exception w \<and> publishes_raise_only_Exception w
        \<and> sleep_only_interrupted w \<longrightarrow>
       (fst (polling_loop w tpc plcs fuel h) = None
          \<or> fst (polling_loop w tpc plcs fuel h) = Some KeyboardInterrupt)
       \<and> ((\<exists>x b. load_all fs = Inr x \<and> mqtt_connect_out w [] = Returns b) \<longrightarrow>
            fst (main fs w fuel) = None \<or> fst (main fs w fuel) = Some Exit0))
   \<and> (fst (main fs w fuel) = Some Exit1 \<longleftrightarrow>
        (\<exists>e. load_all fs = Inl e \<and> config_error e)
        \<or> (\<exists>x e. load_all fs = Inr x \<and> mqtt_connect_out w [] = Raises e \<and> is_Exception e))
   \<and> (fst (main fs w fuel) = Some Exit1 \<longrightarrow> connects (snd (main fs w fuel)) = [])"
proof (intro conjI impI)
  assume "connect_returns w \<and> reads_raise_only_Exception w \<and> publishes_raise_only_Exception w"
  then have "connect_returns w" "reads_raise_only_Exception w" "publishes_raise_only_Exception w"
    by simp_all
  from poll_plcs_blocks[OF this, of tpc h plcs]
  show "fst (poll_plcs w tpc h plcs) = None" by force
next
  assume a: "connect_returns w \<and> reads_raise_only_Exception w \<and> publishes_raise_only_Exception w
        \<and> sleep_only_interrupted w"
  then have h: "connect_returns w" "reads_raise_only_Exception w" "publishes_raise_only_Exception w"
    "sleep_only_interrupted w"
    by simp_all
  from polling_loop_goes_on[OF h]
  show "fst (polling_loop w tpc plcs fuel h) = None
          \<or> fst (polling_loop w tpc plcs fuel h) = Some KeyboardInterrupt" .
  assume "\<exists>x b. load_all fs = Inr x \<and> mqtt_connect_out w [] = Returns b"
  then obtain x b where "load_all fs = Inr x" "mqtt_connect_out w [] = Returns b" by blast
  from main_polling[OF h this]
  show "fst (main fs w fuel) = None \<or> fst (main fs w fuel) = Some Exit0" .
next
  show "fst (main fs w fuel) = Some Exit1 \<longleftrightarrow>
        (\<exists>e. load_all fs = Inl e \<and> config_error e)
        \<or> (\<exists>x e. load_all fs = Inr x \<and> mqtt_connect_out w [] = Raises e \<and> is_Exception e)"
    by (rule main_Exit1_iff)
next
  assume "fst (main fs w fuel) = Some Exit1"
  then show "connects (snd (main fs w fuel)) = []"
    by (auto simp: main_def Let_def split: sum.splits prod.splits outcome.splits option.splits if_splits)
qed

lemma world_all_faults_ok:
  "connect_returns world_all_faults" "reads_raise_only_Exception world_all_faults"
  "publishes_raise_only_Exception world_all_faults" "sleep_only_interrupted world_all_faults"
  by (auto simp: connect_returns_def reads_raise_only_Exception_def
        publishes_raise_only_Exception_def sleep_only_interrupted_def world_all_faults_def)

theorem polling_failures_are_not_fatal_witness:
  "connect_returns world_all_faults \<and> reads_raise_only_Exception world_all_faults
   \<and> publishes_raise_only_Exception world_all_faults \<and> sleep_only_interrupted world_all_faults
   \<and> fst (poll_plcs world_all_faults ''telemetry'' [] [plc_B, plc_C, plc_A]) = None
   \<and> length (snd (poll_plcs world_all_faults ''telemetry'' [] [plc_B, plc_C, plc_A])) = 11
   \<and> fst (polling_loop world_all_faults ''telemetry'' [plc_B, plc_C, plc_A] 2 []) = None
   \<and> (\<exists>x b. load_all fs_good = Inr x \<and> mqtt_connect_out world_all_faults [] = Returns b)
   \<and> fst (main fs_good world_all_faults 2) = None
   \<and> fst (main fs_good world_mqtt_down 2) = Some Exit1
   \<and> connects (snd (main fs_good world_mqtt_down 2)) = []"
proof -
  have l: "\<exists>x b. load_all fs_good = Inr x \<and> mqtt_connect_out world_all_faults [] = Returns b"
  proof -
    have "load_all fs_good =
       Inr (\<lparr>thing_name = ''bridge'', endpoint = ''broker.example.com'', aws_port = 8883,
             root_ca = ''certs/root.pem'', private_key = ''certs/key.pem'',
             certificate = ''certs/cert.pem'', topic = ''telemetry''\<rparr>, [plc_A])"
      by code_simp
    moreover have "mqtt_connect_out world_all_faults [] = Returns True"
      by (simp add: world_all_faults_def)
    ultimately show ?thesis by blast
  qed
  have n: "length (snd (poll_plcs world_all_faults ''telemetry'' [] [plc_B, plc_C, plc_A])) = 11"
    by code_simp
  have p: "fst (polling_loop world_all_faults ''telemetry'' [plc_B, plc_C, plc_A] 2 []) = None"
    by code_simp
  have m: "fst (main fs_good world_all_faults 2) = None"
    by code_simp
  have x: "fst (main fs_good world_mqtt_down 2) = Some Exit1"
    by code_simp
  show ?thesis
    using polling_failures_are_not_fatal[where w=world_all_faults and tpc="''telemetry''"
            and h="[]" and plcs="[plc_B, plc_C, plc_A]" and fuel=2 and fs=fs_good]
          polling_failures_are_not_fatal[where w=world_mqtt_down and tpc="''telemetry''"
            and h="[]" and plcs="[plc_B, plc_C, plc_A]" and fuel=2 and fs=fs_good]
          world_all_faults_ok l n p m x
    by blast
qed

section \<open>What the parser does with decimal digits\<close>

text \<open>
  For a queries string without superscript digits the loop keeps exactly the entries
  that are, after \<^verbatim>\<open>strip\<close>, two decimal literals separated by one comma, in the order of
  the string, and drops every other entry.
\<close>

lemma split_on_nonempty: "split_on sep s \<noteq> []"
  by (induction s) (auto split: list.splits)

lemma split_on_unfold:
  "split_on sep s = takeWhile (\<lambda>c. c \<noteq> sep) s #
      (case dropWhile (\<lambda>c. c \<noteq> sep) s of [] \<Rightarrow> [] | x # r \<Rightarrow> split_on sep r)"
  by (induction s) (auto split: list.splits simp: split_on_nonempty)

lemma split_on_single: "length (split_on sep s) = 1 \<longleftrightarrow> sep \<notin> set s"
proof (induction s)
  case Nil
  show ?case by simp
next
  case (Cons c cs)
  show ?case
  proof (cases "c = sep")
    case True
    then show ?thesis using split_on_nonempty[of sep cs] by (cases "split_on sep cs") auto
  next
    case False
    with Cons split_on_nonempty[of sep cs] show ?thesis by (cases "split_on sep cs") auto
  qed
qed

lemma split_on_no_sep: "sep \<notin> set s \<Longrightarrow> split_on sep s = [s]"
  by (induction s) auto

lemma split_on_two:
  "length (split_on sep s) = 2 \<longleftrightarrow>
     dropWhile (\<lambda>c. c \<noteq> sep) s \<noteq> [] \<and> sep \<notin> set (tl (dropWhile (\<lambda>c. c \<noteq> sep) s))"
proof (cases "dropWhile (\<lambda>c. c \<noteq> sep) s")
  case Nil
  have "split_on sep s = [takeWhile (\<lambda>c. c \<noteq> sep) s]"
    by (subst split_on_unfold) (simp only: Nil list.case)
  with Nil show ?thesis by simp
next
  case (Cons x r)
  have "split_on sep s = takeWhile (\<lambda>c. c \<noteq> sep) s # split_on sep r"
    by (subst split_on_unfold) (simp only: Cons list.case)
  with Cons split_on_single[of sep r] show ?thesis by simp
qed

lemma split_on_two_parts:
  assumes "dropWhile (\<lambda>c. c \<noteq> sep) s \<noteq> []" "sep \<notin> set (tl (dropWhile (\<lambda>c. c \<noteq> sep) s))"
  shows "split_on sep s = [takeWhile (\<lambda>c. c \<noteq> sep) s, tl (dropWhile (\<lambda>c. c \<noteq> sep) s)]"
proof -
  from assms(1) obtain x r where d: "dropWhile (\<lambda>c. c \<noteq> sep) s = x # r"
    by (cases "dropWhile (\<lambda>c. c \<noteq> sep) s") auto
  with assms(2) have "sep \<notin> set r" by simp
  then have "split_on sep r = [r]" by (rule split_on_no_sep)
  with d show ?thesis by (subst split_on_unfold) simp
qed

lemma isdigit_no_comma: "isdigit t \<Longrightarrow> CHR '','' \<notin> set t"
  by (auto simp: isdigit_def list_all_iff isdigit_char_def Let_def)

lemma isdigit_decimal:
  "no_superscript t \<Longrightarrow> isdigit t \<longleftrightarrow> decimal_literal t"
  by (auto simp: isdigit_def decimal_literal_def no_superscript_def list_all_iff
        isdigit_char_def isdecimal_char_def Let_def)

lemma literal_body_decimal: "s \<noteq> [] \<Longrightarrow> list_all isdecimal_char s \<Longrightarrow> literal_body s"
proof (induction s rule: literal_body.induct)
  case 1
  then show ?case by simp
next
  case (2 c)
  then show ?case by simp
next
  case (3 c d cs)
  then have "d \<noteq> CHR ''_''" by (auto simp: isdecimal_char_def Let_def)
  with 3 show ?case by simp
qed

lemma decimal_no_underscore:
  "list_all isdecimal_char s \<Longrightarrow> filter (\<lambda>c. c \<noteq> CHR ''_'') s = s"
  by (induction s) (auto simp: isdecimal_char_def Let_def)

lemma isdecimal_isdigit: "isdecimal_char c \<Longrightarrow> isdigit_char c"
  by (simp add: isdecimal_char_def isdigit_char_def Let_def)

lemma py_int_decimal:
  assumes "decimal_literal t"
  shows "py_int t = Inr (digits_val t)"
proof -
  from assms have ne: "t \<noteq> []" and all: "list_all isdecimal_char t"
    by (simp_all add: decimal_literal_def)
  then have d: "isdigit t"
    by (auto simp: isdigit_def list_all_iff dest: isdecimal_isdigit)
  have s: "strip t = t" using d by (rule isdigit_strip)
  from ne all have "isdecimal_char (hd t)" by (cases t) auto
  then have h: "hd t \<noteq> CHR ''-''" "hd t \<noteq> CHR ''+''"
    by (auto simp: isdecimal_char_def Let_def)
  show ?thesis
    using literal_body_decimal[OF ne all] decimal_no_underscore[OF all] s h ne
    by (simp add: py_int_def Let_def)
qed

lemma no_superscript_takeWhile: "no_superscript e \<Longrightarrow> no_superscript (takeWhile P e)"
  unfolding no_superscript_def list_all_iff by (auto dest: set_takeWhileD)

lemma no_superscript_dropWhile: "no_superscript e \<Longrightarrow> no_superscript (dropWhile P e)"
  unfolding no_superscript_def list_all_iff by (auto dest: set_dropWhileD)

lemma no_superscript_tl: "no_superscript e \<Longrightarrow> no_superscript (tl e)"
  unfolding no_superscript_def by (cases e) auto

lemma no_superscript_strip: "no_superscript q \<Longrightarrow> no_superscript (strip q)"
  unfolding no_superscript_def list_all_iff strip_def
  by (auto dest!: set_dropWhileD)

lemma entry_spec_Nil: "entry_spec [] = None"
  by (simp add: entry_spec_def)

text \<open>One step of the loop, for an entry that is not blank.\<close>

lemma parse_entries_step:
  assumes n: "no_superscript e" and ne: "e \<noteq> []" and st: "strip q = e"
  shows "parse_entries (q # qs) acc =
           parse_entries qs (case entry_spec e of None \<Rightarrow> acc | Some sp \<Rightarrow> acc @ [sp])"
proof -
  let ?a = "takeWhile (\<lambda>c. c \<noteq> CHR '','') e"
  let ?r = "dropWhile (\<lambda>c. c \<noteq> CHR '','') e"
  let ?parts = "split_on CHR '','' e"
  have na: "no_superscript ?a" using n by (rule no_superscript_takeWhile)
  have nr: "no_superscript (tl ?r)" using n by (intro no_superscript_tl no_superscript_dropWhile)
  have pe: "parse_entries (q # qs) acc =
      (if length ?parts = 2 \<and> isdigit (?parts ! 0) \<and> isdigit (?parts ! 1)
       then (case py_int (?parts ! 0) of
               Inl x \<Rightarrow> Inl x
             | Inr a \<Rightarrow>
                (case py_int (?parts ! 1) of
                   Inl x \<Rightarrow> Inl x
                 | Inr n \<Rightarrow> parse_entries qs (acc @ [\<lparr>address = a, count = n\<rparr>])))
       else parse_entries qs acc)"
    using ne st by (simp add: Let_def)
  show ?thesis
  proof (cases "?r \<noteq> [] \<and> decimal_literal ?a \<and> decimal_literal (tl ?r)")
    case True
    then have r: "?r \<noteq> []" and da: "decimal_literal ?a" and db: "decimal_literal (tl ?r)"
      by simp_all
    from db nr have ib: "isdigit (tl ?r)" by (simp add: isdigit_decimal)
    then have nc: "CHR '','' \<notin> set (tl ?r)" by (rule isdigit_no_comma)
    from split_on_two_parts[OF r nc] have p: "?parts = [?a, tl ?r]" .
    from da na have ia: "isdigit ?a" by (simp add: isdigit_decimal)
    have es: "entry_spec e = Some \<lparr>address = digits_val ?a, count = digits_val (tl ?r)\<rparr>"
      using True by (simp add: entry_spec_def Let_def)
    have "parse_entries (q # qs) acc
        = parse_entries qs (acc @ [\<lparr>address = digits_val ?a, count = digits_val (tl ?r)\<rparr>])"
      unfolding pe p using ia ib py_int_decimal[OF da] py_int_decimal[OF db] by simp
    then show ?thesis by (simp add: es)
  next
    case False
    have c: "\<not> (length ?parts = 2 \<and> isdigit (?parts ! 0) \<and> isdigit (?parts ! 1))"
    proof
      assume a: "length ?parts = 2 \<and> isdigit (?parts ! 0) \<and> isdigit (?parts ! 1)"
      then have r: "?r \<noteq> []" and nc: "CHR '','' \<notin> set (tl ?r)"
        by (simp_all add: split_on_two)
      from split_on_two_parts[OF r nc] have p: "?parts = [?a, tl ?r]" .
      with a have "isdigit ?a" "isdigit (tl ?r)" by simp_all
      with na nr have "decimal_literal ?a" "decimal_literal (tl ?r)"
        by (simp_all add: isdigit_decimal)
      with r False show False by simp
    qed
    have es: "entry_spec e = None"
      using False by (simp add: entry_spec_def Let_def)
    have "parse_entries (q # qs) acc = parse_entries qs acc"
      unfolding pe using c by (simp only: if_False)
    then show ?thesis by (simp add: es)
  qed
qed

lemma parse_entries_decimal:
  "list_all no_superscript qs \<Longrightarrow>
     parse_entries qs acc = Inr (acc @ List.map_filter entry_spec (map strip qs))"
proof (induction qs arbitrary: acc)
  case Nil
  show ?case by (simp add: List.map_filter_simps)
next
  case (Cons q qs)
  then have n: "no_superscript (strip q)" and rest: "list_all no_superscript qs"
    by (simp_all add: no_superscript_strip)
  show ?case
  proof (cases "strip q = []")
    case True
    with Cons.IH[OF rest, of acc] show ?thesis
      by (simp add: List.map_filter_simps entry_spec_Nil)
  next
    case False
    from parse_entries_step[OF n False refl, of qs acc] Cons.IH[OF rest]
    show ?thesis
      by (simp add: List.map_filter_simps split: option.splits)
  qed
qed

lemma set_split_on: "\<Union> (set ` set (split_on sep s)) \<subseteq> set s"
proof (induction s)
  case Nil
  show ?case by simp
next
  case (Cons c cs)
  then show ?case by (cases "split_on sep cs") (auto split: if_splits)
qed

lemma no_superscript_split: "no_superscript s \<Longrightarrow> list_all no_superscript (split_on sep s)"
  using set_split_on[of sep s] unfolding no_superscript_def list_all_iff by blast

lemma parse_queries_decimal:
  assumes "no_superscript queries_raw"
  shows "parse_queries queries_raw
           = Inr (List.map_filter entry_spec (map strip (split_on CHR '';'' queries_raw)))"
  unfolding parse_queries_def
  using parse_entries_decimal[OF no_superscript_split[OF assms], of "CHR '';''" "[]"]
  by simp

lemma queries_example:
  "parse_queries ''0,2;1,2'' = Inr [\<lparr>address = 0, count = 2\<rparr>, \<lparr>address = 1, count = 2\<rparr>]"
  "parse_queries '' 0,2 ;  1,2 '' = Inr [\<lparr>address = 0, count = 2\<rparr>, \<lparr>address = 1, count = 2\<rparr>]"
  by code_simp+

section \<open>Sessions\<close>

text \<open>
  \<^verbatim>\<open>connect_and_read\<close> of \<^verbatim>\<open>ip.py\<close> ends every run, also an interrupted one, with the close
  of its client. A sweep of \<^verbatim>\<open>tcp.py\<close> that nothing interrupts connects and closes in
  strict alternation, device by device.
\<close>

lemma connect_and_read_always_closes:
  "\<exists>out body. snd (connect_and_read w h p) =
       ClientConnect (ip p) (port p) out # body @ [ClientClose (ip p) (port p)]
     \<and> list_all is_read body"
proof (cases "connect_out w h (ip p) (port p)")
  case (Raises e)
  then have "snd (connect_and_read w h p) =
       ClientConnect (ip p) (port p) (Raises e) # [] @ [ClientClose (ip p) (port p)]"
    by (simp add: connect_and_read_def Let_def)
  then show ?thesis by (intro exI[of _ "Raises e"] exI[of _ "[]"]) simp
next
  case (Returns b)
  show ?thesis
  proof (cases b)
    case False
    with Returns have "snd (connect_and_read w h p) =
       ClientConnect (ip p) (port p) (Returns b) # [] @ [ClientClose (ip p) (port p)]"
      by (simp add: connect_and_read_def Let_def)
    then show ?thesis by (intro exI[of _ "Returns b"] exI[of _ "[]"]) simp
  next
    case True
    let ?ev = "ClientConnect (ip p) (port p) (Returns b)"
    let ?body = "snd (read_holding_registers_ip w (h @ [?ev]) (reads p))"
    have "snd (connect_and_read w h p) = ?ev # ?body @ [ClientClose (ip p) (port p)]"
      using Returns True
      by (simp add: connect_and_read_def Let_def split: prod.splits sum.splits)
    moreover have "list_all is_read ?body" by (rule reader_ip_events_are_reads)
    ultimately show ?thesis by blast
  qed
qed

lemma reads_no_session: "list_all is_read xs \<Longrightarrow> filter is_session xs = []"
  by (induction xs) (auto elim: is_read.elims)

lemma publishes_no_session: "list_all is_publish xs \<Longrightarrow> filter is_session xs = []"
  by (induction xs) (auto elim: is_publish.elims)

lemma device_block_sessions:
  "device_block tpc p blk \<Longrightarrow>
     \<exists>b. filter is_session blk = [ClientConnect (ip p) (port p) (Returns b), ClientClose (ip p) (port p)]"
  by (auto simp: device_block_def reads_no_session publishes_no_session)

lemma blocks_sessions:
  "list_all2 (device_block tpc) plcs blocks \<Longrightarrow>
     \<exists>bs. length bs = length plcs \<and>
       filter is_session (concat blocks) =
         concat (map (\<lambda>(p, b). [ClientConnect (ip p) (port p) (Returns b), ClientClose (ip p) (port p)])
                     (zip plcs bs))"
proof (induction plcs blocks rule: list_all2_induct)
  case Nil
  show ?case by simp
next
  case (Cons p plcs blk blocks)
  from device_block_sessions[OF Cons.hyps(1)] obtain b where
    b: "filter is_session blk = [ClientConnect (ip p) (port p) (Returns b), ClientClose (ip p) (port p)]"
    by blast
  from Cons.IH obtain bs where
    "length bs = length plcs"
    "filter is_session (concat blocks) =
         concat (map (\<lambda>(p, b). [ClientConnect (ip p) (port p) (Returns b), ClientClose (ip p) (port p)])
                     (zip plcs bs))"
    by blast
  with b show ?case by (intro exI[of _ "b # bs"]) simp
qed

lemma uninterrupted_sweep_sessions:
  assumes "connect_returns w" and "reads_raise_only_Exception w"
    and "publishes_raise_only_Exception w"
  shows "\<exists>bs. length bs = length plcs \<and>
       filter is_session (snd (poll_plcs w tpc h plcs)) =
         concat (map (\<lambda>(p, b). [ClientConnect (ip p) (port p) (Returns b), ClientClose (ip p) (port p)])
                     (zip plcs bs))"
proof -
  from poll_plcs_blocks[OF assms, of tpc h plcs] obtain blocks where
    r: "poll_plcs w tpc h plcs = (None, concat blocks)"
    and a: "list_all2 (device_block tpc) plcs blocks"
    by blast
  from blocks_sessions[OF a] r show ?thesis by simp
qed

section \<open>Where the code leaves the specification\<close>

text \<open>
  C4 is not met by \<^verbatim>\<open>tcp.py\<close> for a connect that fails by raising instead of returning
  false: no handler surrounds \<^verbatim>\<open>client.connect()\<close> in the loop body, so the exception
  leaves the sweep at that device, the devices after it are never attempted, and the
  process ends with a traceback. On the same input \<^verbatim>\<open>connect_and_read\<close> of \<^verbatim>\<open>ip.py\<close> catches
  the exception and goes on to the next device.
\<close>

theorem raising_connect_aborts_sweep:
  "fst (poll_plcs world_connect_raises ''telemetry'' [] [plc_C, plc_A, plc_B])
     = Some (OtherException ''label empty or too long'')
   \<and> connects (snd (poll_plcs world_connect_raises ''telemetry'' [] [plc_C, plc_A, plc_B]))
     = [(''10.0.0.7'', 502), (''10.0.0.5'', 502)]
   \<and> main fs_good world_connect_raises 3 =
     (Some (Traceback (OtherException ''label empty or too long'')),
      [MqttConnect (Returns True),
       ClientConnect ''10.0.0.5'' 502 (Raises (OtherException ''label empty or too long''))])
   \<and> fst (run_devices world_connect_raises [] [plc_C, plc_A, plc_B]) = None
   \<and> connects (snd (run_devices world_connect_raises [] [plc_C, plc_A, plc_B]))
     = [(''10.0.0.7'', 502), (''10.0.0.5'', 502), (''10.0.0.6'', 502)]"
  by code_simp

text \<open>
  C2 is not met by \<^verbatim>\<open>tcp.py\<close>: its loop body has no \<^verbatim>\<open>finally\<close>, so when a read of a
  connected device is interrupted (\<^verbatim>\<open>KeyboardInterrupt\<close> passes the handlers of the
  reader) the body is left without the close, and the process ends with the session
  never closed. On the same input \<^verbatim>\<open>connect_and_read\<close> of \<^verbatim>\<open>ip.py\<close> closes the client in its
  \<^verbatim>\<open>finally\<close>.
\<close>

theorem interrupted_read_skips_close:
  "poll_plcs world_interrupt ''telemetry'' [] [plc_A, plc_C] =
     (Some KeyboardInterrupt,
      [ClientConnect ''10.0.0.5'' 502 (Returns True),
       ClientRead 0 2 True (Raises KeyboardInterrupt)])
   \<and> main fs_good world_interrupt 3 =
     (Some Exit0,
      [MqttConnect (Returns True),
       ClientConnect ''10.0.0.5'' 502 (Returns True),
       ClientRead 0 2 True (Raises KeyboardInterrupt)])
   \<and> run_devices world_interrupt [] [plc_A, plc_C] =
     (Some KeyboardInterrupt,
      [ClientConnect ''10.0.0.5'' 502 (Returns True),
       ClientRead 0 2 True (Raises KeyboardInterrupt),
       ClientClose ''10.0.0.5'' 502])"
  by code_simp

text \<open>
  C7 is not met for every queries string: \<^verbatim>\<open>isdigit\<close> accepts the superscript digits, which
  \<^verbatim>\<open>int\<close> rejects, so the entry \<^verbatim>\<open>1,\<close> with the superscript two is neither kept nor dropped:
  the \<^verbatim>\<open>ValueError\<close> leaves \<^verbatim>\<open>load_plcs_from_config\<close>, the handler for \<^verbatim>\<open>FileNotFoundError\<close>
  and \<^verbatim>\<open>KeyError\<close> does not catch it, and the process ends with a traceback.
\<close>

theorem superscript_digit_raises:
  "parse_queries [CHR ''1'', CHR '','', CHR 0xB2] = Inl (ValueError [CHR 0xB2])
   \<and> parse_queries (''0,2;'' @ [CHR ''1'', CHR '','', CHR 0xB2] @ '';1,2'') = Inl (ValueError [CHR 0xB2])
   \<and> load_plcs_from_config cfg_superscript = Inl (ValueError [CHR 0xB2])
   \<and> main fs_superscript world_B_down 3 = (Some (Traceback (ValueError [CHR 0xB2])), [])"
  by code_simp

end
